theory Spec2Isabelle
  imports Complex_Main "HOL-Library.Word"
begin

unbundle bit_operations_syntax

section \<open>Test-stand firmware: the sequencer of \<^verbatim>\<open>src/main.cpp\<close>\<close>

text \<open>
  The firmware is one translation unit of free-standing globals, a \<^verbatim>\<open>setup()\<close>, a polled
  \<^verbatim>\<open>loop()\<close> and one interrupt handler. The globals become one record that every
  function takes and returns. What the program does to the hardware is appended to
  \<open>hw_trace\<close>, in program order; what the hardware answers (the clock, the converters,
  the card, the random generator) comes in with each call as an input record.

  The values of type \<^verbatim>\<open>float\<close> are modelled as reals: rounding is not modelled. The two time
  comparisons of the program are between a whole number of milliseconds, converted and
  divided by \<^verbatim>\<open>1000.f\<close>, and a whole number of seconds; conversion and division are
  monotone and the limits are exactly representable, so the comparison on reals decides
  as the one on floats does.
\<close>

subsection \<open>Constants\<close>

definition GPIO_THERMISTOR_1 :: nat where "GPIO_THERMISTOR_1 = 24"
definition GPIO_THERMISTOR_2 :: nat where "GPIO_THERMISTOR_2 = 25"
definition GPIO_RELAY_TOGGLE :: nat where "GPIO_RELAY_TOGGLE = 14"
definition GPIO_LED_TEST_ACTIVE :: nat where "GPIO_LED_TEST_ACTIVE = 32"
definition GPIO_BUTTON_ACTIVATE_TEST :: nat where "GPIO_BUTTON_ACTIVATE_TEST = 33"

definition TEST_DATA_SAMPLE_RATE :: real where "TEST_DATA_SAMPLE_RATE = 50"
definition TEST_COUNTDOWN_SECONDS :: real where "TEST_COUNTDOWN_SECONDS = 30"
definition TEST_DURATION_SECONDS :: real where "TEST_DURATION_SECONDS = 15"

definition THERMISTOR_1_RESISTANCE :: real where "THERMISTOR_1_RESISTANCE = 19750"
definition THERMISTOR_2_RESISTANCE :: real where "THERMISTOR_2_RESISTANCE = 18550"

subsection \<open>Data\<close>

datatype E_OPERATION_STATE =
  STARTUP | ERROR | READY_FOR_COUNTDOWN | COUNTDOWN | TEST_ACTIVE | POST_TEST

text \<open>
  An Arduino \<^verbatim>\<open>String\<close> is built by appending literals and numbers. The decimal rendering
  of a number belongs to the library, so a string is kept as the list of the pieces that
  were appended: the empty string is the empty list, concatenation is \<open>@\<close>.
\<close>

datatype piece = Text string | Float real | Long int

type_synonym WString = "piece list"

fun S_OPERATION_STATE :: "E_OPERATION_STATE \<Rightarrow> WString" where
  "S_OPERATION_STATE STARTUP = [Text ''STARTUP'']"
| "S_OPERATION_STATE ERROR = [Text ''ERROR'']"
| "S_OPERATION_STATE READY_FOR_COUNTDOWN = [Text ''READY_FOR_COUNTDOWN'']"
| "S_OPERATION_STATE COUNTDOWN = [Text ''COUNTDOWN'']"
| "S_OPERATION_STATE TEST_ACTIVE = [Text ''TEST_ACTIVE'']"
| "S_OPERATION_STATE POST_TEST = [Text ''POST_TEST'']"

datatype level = LOW | HIGH

datatype pin_mode = INPUT | OUTPUT

datatype draw = DrawHLine nat nat nat | SetFont string | DrawStr nat nat WString

datatype hw_event =
    PinMode nat pin_mode
  | AttachInterrupt nat level
  | DigitalWrite nat level
  | AnalogRead nat
  | SdBegin
  | SdExists WString
  | FileOpen WString
  | FilePrintf WString
  | FileSync
  | FileClose
  | LoadCellBegin
  | LoadCellStart nat bool
  | LoadCellSetCalFactor real
  | LoadCellUpdate
  | LoadCellGetData
  | DisplayBegin
  | DisplayPage "draw list"

text \<open>
  The globals. \<open>Sd\<close> is the card: the files on it, each with the chunks printed to it;
  \<open>File\<close> is the open log file, if any. \<open>pins\<close> is the level each output pin drives.
\<close>

record State =
  OPERATION_STATE :: E_OPERATION_STATE
  CountdownActivatedTime :: "64 word"
  TestActivatedTime :: "64 word"
  Countdown :: real
  TestDuration :: real
  ThermistorData :: "real \<times> real"
  LoadCellForceData :: real
  Sd :: "WString \<rightharpoonup> WString list"
  File :: "WString option"
  ErrorLog :: WString
  MainLoopPrev :: "64 word"
  pins :: "nat \<Rightarrow> level"
  hw_trace :: "hw_event list"

text \<open>What the hardware answers during \<^verbatim>\<open>setup()\<close>, and what it is at reset.\<close>

record boot_in =
  reset_level :: level
  card_files :: "WString \<rightharpoonup> WString list"
  sd_begin_ok :: bool
  tare_timeout :: bool

text \<open>
  What the hardware answers during one pass of \<^verbatim>\<open>loop()\<close>: one clock reading for each
  call of \<^verbatim>\<open>millis()\<close> on the path, the two converter readings, and the load cell.
  \<^verbatim>\<open>millis()\<close> is an unsigned 32-bit count of milliseconds; the program widens it to
  64 bits where it stores it or subtracts from it.
\<close>

record tick_in =
  ms_loop :: "32 word"
  adc1 :: int
  adc2 :: int
  lc_update :: bool
  lc_data :: real
  ms_log :: "32 word"
  ms_detect :: "32 word"
  ms_begin :: "32 word"
  ms_prev :: "32 word"

text \<open>
  What the hardware answers during one run of the interrupt handler: the clock, the
  sequence of raw values of the random generator, and whether the card opens the file.
\<close>

record arm_in =
  ms_arm :: "32 word"
  rnd :: "nat \<Rightarrow> nat"
  open_ok :: bool

datatype input = Loop tick_in | Arm arm_in

subsection \<open>Small helpers\<close>

definition emit :: "hw_event \<Rightarrow> State \<Rightarrow> State" where
  "emit e s = s\<lparr>hw_trace := hw_trace s @ [e]\<rparr>"

definition digitalWrite :: "nat \<Rightarrow> level \<Rightarrow> State \<Rightarrow> State" where
  "digitalWrite p l s = emit (DigitalWrite p l) (s\<lparr>pins := (pins s)(p := l)\<rparr>)"

text \<open>
  \<^verbatim>\<open>File.printf\<close>: the text reaches the card only when a file is open; then it is
  appended to that file.
\<close>

definition card_write ::
  "WString option \<Rightarrow> WString \<Rightarrow> (WString \<rightharpoonup> WString list) \<Rightarrow> (WString \<rightharpoonup> WString list)" where
  "card_write file txt files =
     (case file of
        None \<Rightarrow> files
      | Some f \<Rightarrow> files(f \<mapsto> (case files f of None \<Rightarrow> [] | Some cs \<Rightarrow> cs) @ [txt]))"

definition File_printf :: "WString \<Rightarrow> State \<Rightarrow> State" where
  "File_printf txt s = emit (FilePrintf txt) (s\<lparr>Sd := card_write (File s) txt (Sd s)\<rparr>)"

definition File_sync :: "State \<Rightarrow> State" where
  "File_sync s = emit FileSync s"

text \<open>\<^verbatim>\<open>File.open(name, FILE_WRITE)\<close>: creates the file when it is not on the card.\<close>

definition File_open :: "WString \<Rightarrow> bool \<Rightarrow> State \<Rightarrow> bool \<times> State" where
  "File_open name ok s =
     (ok, emit (FileOpen name)
            (s\<lparr>File := (if ok then Some name else File s),
               Sd := (if ok \<and> Sd s name = None then (Sd s)(name \<mapsto> []) else Sd s)\<rparr>))"

text \<open>\<^verbatim>\<open>int(x)\<close> on a float truncates towards zero.\<close>

definition trunc :: "real \<Rightarrow> int" where
  "trunc x = (if 0 \<le> x then \<lfloor>x\<rfloor> else \<lceil>x\<rceil>)"

text \<open>\<^verbatim>\<open>random(howbig)\<close> is the raw value of the generator modulo \<open>howbig\<close>.\<close>

definition random :: "nat \<Rightarrow> nat \<Rightarrow> nat" where
  "random howbig raw = (if howbig = 0 then 0 else raw mod howbig)"

definition log_filename :: "nat \<Rightarrow> WString" where
  "log_filename n = [Text ''Motor Test Data #''] @ [Long (int n)] @ [Text ''.csv'']"

subsection \<open>Initialisers\<close>

definition InitRecorder :: "boot_in \<Rightarrow> State \<Rightarrow> State" where
  "InitRecorder b s =
     (let s = emit SdBegin s in
      if \<not> sd_begin_ok b
      then s\<lparr>OPERATION_STATE := ERROR,
             ErrorLog := ErrorLog s @ [Text ''SD-CARD NOT FOUND | '']\<rparr>
      else s)"

definition InitLoadCell :: "boot_in \<Rightarrow> State \<Rightarrow> State" where
  "InitLoadCell b s =
     (let s = emit LoadCellBegin s;
          s = emit (LoadCellStart 400 True) s;
          s = (if tare_timeout b
               then s\<lparr>OPERATION_STATE := ERROR,
                      ErrorLog := ErrorLog s @ [Text ''LOAD CELL TARE UNSUCESSFUL | '']\<rparr>
               else s)
      in emit (LoadCellSetCalFactor 1) s)"

definition InitDisplay :: "State \<Rightarrow> State" where
  "InitDisplay s = emit DisplayBegin s"

definition InitGPIO :: "State \<Rightarrow> State" where
  "InitGPIO s =
     (let s = emit (PinMode GPIO_THERMISTOR_1 INPUT) s;
          s = emit (PinMode GPIO_THERMISTOR_2 INPUT) s;
          s = emit (PinMode GPIO_RELAY_TOGGLE OUTPUT) s;
          s = emit (PinMode GPIO_LED_TEST_ACTIVE OUTPUT) s;
          s = emit (PinMode GPIO_BUTTON_ACTIVATE_TEST INPUT) s
      in emit (AttachInterrupt GPIO_BUTTON_ACTIVATE_TEST HIGH) s)"

subsection \<open>The log file\<close>

definition CreateTelemetryString :: "State \<Rightarrow> State" where
  "CreateTelemetryString s =
     (let TelemetryString =
            [] @ [Text ''Time (s), Force (N), Temperature #1 (*C), Temperature #2 (*C)\<newline>'']
      in File_sync (File_printf TelemetryString s))"

definition CloseLogFile :: "State \<Rightarrow> State" where
  "CloseLogFile s = emit FileClose (s\<lparr>File := None\<rparr>)"

definition LogTestData :: "tick_in \<Rightarrow> State \<Rightarrow> State" where
  "LogTestData t s =
     (let TelemetryString =
            [] @ [Float (real (unat (ms_log t)) / 1000)]
               @ [Text '', '']
               @ [Float (LoadCellForceData s)]
               @ [Text '', '']
               @ [Float (fst (ThermistorData s))]
               @ [Text '', '']
               @ [Float (snd (ThermistorData s))]
               @ [Text ''\<newline>'']
      in File_sync (File_printf TelemetryString s))"

text \<open>
  The loop of \<^verbatim>\<open>CreateLogFile\<close> draws names until one is not on the card. It need not
  return: not returning is the value \<open>None\<close>. \<open>k\<close> counts the draws made so far.
\<close>

partial_function (option) CreateLogFile_loop ::
  "(nat \<Rightarrow> nat) \<Rightarrow> nat \<Rightarrow> WString \<Rightarrow> State \<Rightarrow> (WString \<times> State) option" where
  "CreateLogFile_loop raw k filename s =
     (if filename \<in> dom (Sd s)
      then CreateLogFile_loop raw (Suc k) (log_filename (random 100 (raw k)))
             (emit (SdExists filename) s)
      else Some (filename, emit (SdExists filename) s))"

definition CreateLogFile :: "arm_in \<Rightarrow> State \<Rightarrow> (bool \<times> State) option" where
  "CreateLogFile a s =
     (case CreateLogFile_loop (rnd a) 1 (log_filename (random 100 (rnd a 0))) s of
        None \<Rightarrow> None
      | Some (filename, s') \<Rightarrow> Some (File_open filename (open_ok a) s'))"

subsection \<open>The relay\<close>

definition ToggleRelay :: "bool \<Rightarrow> State \<Rightarrow> State" where
  "ToggleRelay Status s =
     (if Status = False then digitalWrite GPIO_RELAY_TOGGLE HIGH s
      else digitalWrite GPIO_RELAY_TOGGLE LOW s)"

subsection \<open>The interrupt handler\<close>

definition InterruptTestStartCommand :: "arm_in \<Rightarrow> State \<Rightarrow> State option" where
  "InterruptTestStartCommand a s =
     (if OPERATION_STATE s \<noteq> READY_FOR_COUNTDOWN then Some s
      else
        let s = digitalWrite GPIO_LED_TEST_ACTIVE HIGH s;
            s = s\<lparr>CountdownActivatedTime := ucast (ms_arm a)\<rparr>
        in case CreateLogFile a s of
             None \<Rightarrow> None
           | Some (opened, s) \<Rightarrow>
               let ErrorCount = (if \<not> opened then 1 else 0 :: nat);
                   s = CreateTelemetryString s
               in if ErrorCount \<noteq> 0
                  then Some (s\<lparr>OPERATION_STATE := ERROR,
                               ErrorLog := ErrorLog s @ [Text ''STARTUP NOT SUCESSFUL | '']\<rparr>)
                  else Some (s\<lparr>OPERATION_STATE := COUNTDOWN\<rparr>))"

subsection \<open>Display and sensors\<close>

text \<open>
  The body of the page loop of \<^verbatim>\<open>DisplayRenderData\<close>; the loop draws it once for each
  page of the display, the same every time.
\<close>

definition page :: "State \<Rightarrow> draw list" where
  "page s =
     [DrawHLine 5 0 120,
      DrawHLine 5 10 120,
      SetFont ''u8g2_font_3x5im_mr'',
      DrawStr 5 8 (S_OPERATION_STATE (OPERATION_STATE s)),
      DrawStr 5 19 (ErrorLog s),
      DrawStr 5 42 [Text ''Load Cell     =''],
      DrawStr 5 52 [Text ''Thermistor #1 =''],
      DrawStr 5 62 [Text ''Thermistor #2 =''],
      DrawStr 70 42 [Float (LoadCellForceData s)],
      DrawStr 70 52 [Float (fst (ThermistorData s))],
      DrawStr 70 62 [Float (snd (ThermistorData s))],
      SetFont ''u8g2_font_10x20_me'',
      DrawStr 96 56 [Long (trunc (TEST_COUNTDOWN_SECONDS - Countdown s))]]"

definition DisplayRenderData :: "State \<Rightarrow> State" where
  "DisplayRenderData s = emit (DisplayPage (page s)) s"

text \<open>
  \<^verbatim>\<open>ReadThermistor\<close>, on reals, from the converter reading. Its scratch globals are local
  here. What the floats give at a reading of 0, where the program divides by zero, is not
  modelled; no statement below depends on the value computed.
\<close>

definition c1 :: real where "c1 = 1.009249522 / 10 ^ 3"
definition c2 :: real where "c2 = 2.378405444 / 10 ^ 4"
definition c3 :: real where "c3 = 2.019202697 / 10 ^ 7"

definition ReadThermistor :: "int \<Rightarrow> real \<Rightarrow> real \<Rightarrow> real" where
  "ReadThermistor reading Resistance CalibrationOffset =
     (let Vo = (3.3 / 1024) * real_of_int reading;
          R1 = Resistance * (3.3 - Vo) / Vo;
          logR2 = ln R1;
          T = 1 / (c1 + c2 * logR2 + c3 * logR2 * logR2 * logR2);
          T = T - 273.15
      in T + CalibrationOffset)"

definition GetThermistorData :: "tick_in \<Rightarrow> State \<Rightarrow> State" where
  "GetThermistorData t s =
     (let s = emit (AnalogRead GPIO_THERMISTOR_1) s;
          s = s\<lparr>ThermistorData :=
                  (ReadThermistor (adc1 t) THERMISTOR_1_RESISTANCE 40, snd (ThermistorData s))\<rparr>;
          s = emit (AnalogRead GPIO_THERMISTOR_2) s
      in s\<lparr>ThermistorData :=
             (fst (ThermistorData s), ReadThermistor (adc2 t) THERMISTOR_2_RESISTANCE 40)\<rparr>)"

definition GetLoadCellData :: "tick_in \<Rightarrow> State \<Rightarrow> State" where
  "GetLoadCellData t s =
     (let s = emit LoadCellUpdate s in
      if lc_update t
      then (emit LoadCellGetData s)\<lparr>LoadCellForceData := lc_data t / 100000\<rparr>
      else s)"

subsection \<open>Timed transitions\<close>

definition BeginTest :: "tick_in \<Rightarrow> State \<Rightarrow> State" where
  "BeginTest t s =
     ToggleRelay True
       (s\<lparr>TestActivatedTime := ucast (ms_begin t), OPERATION_STATE := TEST_ACTIVE\<rparr>)"

definition DetectCountdownEnd :: "tick_in \<Rightarrow> State \<Rightarrow> State" where
  "DetectCountdownEnd t s =
     (if OPERATION_STATE s \<noteq> COUNTDOWN then s
      else
        let s = s\<lparr>Countdown :=
                    real (unat (ucast (ms_detect t) - CountdownActivatedTime s)) / 1000\<rparr>
        in if Countdown s < TEST_COUNTDOWN_SECONDS then s else BeginTest t s)"

definition EndTest :: "State \<Rightarrow> State" where
  "EndTest s =
     ToggleRelay False
       (CloseLogFile
         (digitalWrite GPIO_LED_TEST_ACTIVE LOW (s\<lparr>OPERATION_STATE := POST_TEST\<rparr>)))"

definition DetectTestEnd :: "tick_in \<Rightarrow> State \<Rightarrow> State" where
  "DetectTestEnd t s =
     (if OPERATION_STATE s \<noteq> TEST_ACTIVE then s
      else
        let s = s\<lparr>TestDuration :=
                    real (unat (ucast (ms_detect t) - TestActivatedTime s)) / 1000\<rparr>;
            s = s\<lparr>Countdown := TestDuration s + 15\<rparr>
        in if TestDuration s < TEST_DURATION_SECONDS then s else EndTest s)"

subsection \<open>\<^verbatim>\<open>setup()\<close> and \<^verbatim>\<open>loop()\<close>\<close>

text \<open>
  The globals at reset. \<^verbatim>\<open>10^10\<close> is the exclusive or of 10 with itself. The pins drive
  the level the hardware resets them to.
\<close>

definition reset :: "boot_in \<Rightarrow> State" where
  "reset b =
     \<lparr>OPERATION_STATE = STARTUP,
      CountdownActivatedTime = 10 XOR 10,
      TestActivatedTime = 10 XOR 10,
      Countdown = TEST_COUNTDOWN_SECONDS,
      TestDuration = TEST_DURATION_SECONDS,
      ThermistorData = (0, 0),
      LoadCellForceData = 0,
      Sd = card_files b,
      File = None,
      ErrorLog = [],
      MainLoopPrev = 0,
      pins = (\<lambda>p. reset_level b),
      hw_trace = []\<rparr>"

definition setup_fn :: "boot_in \<Rightarrow> State \<Rightarrow> State" where
  "setup_fn b s =
     (let s = InitGPIO s;
          s = InitRecorder b s;
          s = InitLoadCell b s;
          s = InitDisplay s
      in if OPERATION_STATE s = STARTUP \<and> OPERATION_STATE s \<noteq> ERROR
         then s\<lparr>OPERATION_STATE := READY_FOR_COUNTDOWN\<rparr>
         else s)"

text \<open>The body of the \<^verbatim>\<open>if\<close> in \<^verbatim>\<open>loop()\<close>: one scheduler tick.\<close>

definition tick :: "tick_in \<Rightarrow> State \<Rightarrow> State" where
  "tick t s =
     (let s = DisplayRenderData s;
          s = (case OPERATION_STATE s of
                 READY_FOR_COUNTDOWN \<Rightarrow> GetLoadCellData t (GetThermistorData t s)
               | COUNTDOWN \<Rightarrow>
                   DetectCountdownEnd t
                     (LogTestData t (GetLoadCellData t (GetThermistorData t s)))
               | TEST_ACTIVE \<Rightarrow>
                   DetectTestEnd t
                     (LogTestData t (GetLoadCellData t (GetThermistorData t s)))
               | POST_TEST \<Rightarrow> GetLoadCellData t (GetThermistorData t s)
               | _ \<Rightarrow> s)
      in s\<lparr>MainLoopPrev := ucast (ms_prev t)\<rparr>)"

definition loop :: "tick_in \<Rightarrow> State \<Rightarrow> State" where
  "loop t s =
     (if 1000 / TEST_DATA_SAMPLE_RATE \<le> real (unat (ucast (ms_loop t) - MainLoopPrev s))
      then tick t s else s)"

subsection \<open>Runs\<close>

text \<open>
  A run is \<^verbatim>\<open>setup()\<close> from reset, followed by passes of \<^verbatim>\<open>loop()\<close> and runs of the
  interrupt handler in any order, each taken as a whole. The handler can interrupt a pass
  at any point, but it acts only in \<open>READY_FOR_COUNTDOWN\<close>: \<^verbatim>\<open>setup()\<close> leaves \<open>STARTUP\<close> only
  in its last statement, and the branch of \<^verbatim>\<open>loop()\<close> taken in \<open>READY_FOR_COUNTDOWN\<close> reads
  the sensors and writes nothing the handler reads or writes. A handler that comes
  before the \<^verbatim>\<open>switch\<close> has read the state acts as one before the pass, a later one as
  one after it; only the display page drawn in that pass may show part of either state.
  A handler that never returns ends the run: the run has no final state.
\<close>

definition boot :: "boot_in \<Rightarrow> State" where
  "boot b = setup_fn b (reset b)"

fun step :: "input \<Rightarrow> State \<Rightarrow> State option" where
  "step (Loop t) s = Some (loop t s)"
| "step (Arm a) s = InterruptTestStartCommand a s"

fun run :: "input list \<Rightarrow> State \<Rightarrow> State option" where
  "run [] s = Some s"
| "run (i # is) s = (case step i s of None \<Rightarrow> None | Some s' \<Rightarrow> run is s')"

subsection \<open>Reading the trace\<close>

text \<open>
  The relay pin is written by \<open>ToggleRelay\<close> only: \<open>LOW\<close> by \<open>ToggleRelay True\<close> (engage),
  \<open>HIGH\<close> by \<open>ToggleRelay False\<close> (disengage). The relay counts as engaged when the
  last of these calls was the engaging one.
\<close>

fun relay_writes :: "hw_event list \<Rightarrow> level list" where
  "relay_writes [] = []"
| "relay_writes (DigitalWrite p l # es) =
     (if p = GPIO_RELAY_TOGGLE then l # relay_writes es else relay_writes es)"
| "relay_writes (_ # es) = relay_writes es"

definition relay_engaged :: "hw_event list \<Rightarrow> bool" where
  "relay_engaged tr = (case rev (relay_writes tr) of [] \<Rightarrow> False | l # _ \<Rightarrow> l = LOW)"

text \<open>The texts given to \<^verbatim>\<open>File.printf\<close>, in order.\<close>

fun prints :: "hw_event list \<Rightarrow> WString list" where
  "prints [] = []"
| "prints (FilePrintf txt # es) = txt # prints es"
| "prints (_ # es) = prints es"

fun is_probe :: "hw_event \<Rightarrow> bool" where
  "is_probe (SdExists _) = True"
| "is_probe _ = False"

fun is_display :: "hw_event \<Rightarrow> bool" where
  "is_display (DisplayPage _) = True"
| "is_display _ = False"

fun is_sensor_read :: "hw_event \<Rightarrow> bool" where
  "is_sensor_read (AnalogRead _) = True"
| "is_sensor_read LoadCellUpdate = True"
| "is_sensor_read LoadCellGetData = True"
| "is_sensor_read _ = False"

text \<open>What a step added to the trace.\<close>

definition new_events :: "State \<Rightarrow> State \<Rightarrow> hw_event list" where
  "new_events s s' = drop (length (hw_trace s)) (hw_trace s')"

definition header :: WString where
  "header = [Text ''Time (s), Force (N), Temperature #1 (*C), Temperature #2 (*C)\<newline>'']"

text \<open>A telemetry line: four numbers, separated by comma and blank, and a line end.\<close>

definition telemetry_line :: "real \<Rightarrow> real \<Rightarrow> real \<Rightarrow> real \<Rightarrow> WString" where
  "telemetry_line secs force temp1 temp2 =
     [Float secs, Text '', '', Float force, Text '', '', Float temp1, Text '', '', Float temp2,
      Text ''\<newline>'']"

fun num :: "piece \<Rightarrow> real" where
  "num (Float x) = x"
| "num (Long i) = real_of_int i"
| "num (Text _) = 0"

definition is_telemetry_line :: "WString \<Rightarrow> bool" where
  "is_telemetry_line l =
     (l = telemetry_line (num (l ! 0)) (num (l ! 2)) (num (l ! 4)) (num (l ! 6)))"

text \<open>
  The seconds \<open>DetectCountdownEnd\<close> and \<open>DetectTestEnd\<close> compute from the clock: the
  difference is taken in 64 bits, without sign.
\<close>

definition countdown_elapsed :: "tick_in \<Rightarrow> State \<Rightarrow> real" where
  "countdown_elapsed t s = real (unat (ucast (ms_detect t) - CountdownActivatedTime s)) / 1000"

definition test_elapsed :: "tick_in \<Rightarrow> State \<Rightarrow> real" where
  "test_elapsed t s = real (unat (ucast (ms_detect t) - TestActivatedTime s)) / 1000"

text \<open>The prints so far are the header and then telemetry lines only.\<close>

definition log_shape :: "hw_event list \<Rightarrow> bool" where
  "log_shape tr =
     (prints tr \<noteq> [] \<and> hd (prints tr) = header \<and> list_all is_telemetry_line (tl (prints tr)))"

text \<open>The open file holds exactly what was printed.\<close>

definition log_open :: "State \<Rightarrow> bool" where
  "log_open s =
     (case File s of None \<Rightarrow> False | Some f \<Rightarrow> Sd s f = Some (prints (hw_trace s)))"

text \<open>
  What holds of every state a run reaches, state by state: which writes the relay pin has
  seen and the level it drives, whether a reason has been appended, and what has been
  printed to the log.
\<close>

definition reach_inv :: "boot_in \<Rightarrow> State \<Rightarrow> bool" where
  "reach_inv b s =
     (relay_writes (hw_trace s) =
        (case OPERATION_STATE s of TEST_ACTIVE \<Rightarrow> [LOW] | POST_TEST \<Rightarrow> [LOW, HIGH] | _ \<Rightarrow> []) \<and>
      pins s GPIO_RELAY_TOGGLE =
        (case OPERATION_STATE s of TEST_ACTIVE \<Rightarrow> LOW | POST_TEST \<Rightarrow> HIGH | _ \<Rightarrow> reset_level b) \<and>
      (ErrorLog s \<noteq> []) = (OPERATION_STATE s = ERROR) \<and>
      (case OPERATION_STATE s of
         STARTUP \<Rightarrow> False
       | ERROR \<Rightarrow> (prints (hw_trace s) = [] \<or> prints (hw_trace s) = [header]) \<and> File s = None
       | READY_FOR_COUNTDOWN \<Rightarrow> prints (hw_trace s) = [] \<and> File s = None
       | COUNTDOWN \<Rightarrow> log_shape (hw_trace s) \<and> log_open s
       | TEST_ACTIVE \<Rightarrow> log_shape (hw_trace s) \<and> log_open s
       | POST_TEST \<Rightarrow> log_shape (hw_trace s) \<and> File s = None))"

subsection \<open>Concrete inputs\<close>

definition ex_boot :: boot_in where
  "ex_boot = \<lparr>reset_level = LOW, card_files = Map.empty, sd_begin_ok = True,
              tare_timeout = False\<rparr>"

definition ex_boot_no_card :: boot_in where
  "ex_boot_no_card = \<lparr>reset_level = LOW, card_files = Map.empty, sd_begin_ok = False,
                      tare_timeout = False\<rparr>"

text \<open>A card that holds all hundred candidate names.\<close>

definition ex_boot_full :: boot_in where
  "ex_boot_full = \<lparr>reset_level = LOW,
                   card_files = (\<lambda>f. if f \<in> log_filename ` {..<100} then Some [] else None),
                   sd_begin_ok = True, tare_timeout = False\<rparr>"

definition ex_arm :: arm_in where
  "ex_arm = \<lparr>ms_arm = 5000, rnd = (\<lambda>k. k + 7), open_ok = True\<rparr>"

text \<open>An arm event 6 ms before the 32-bit clock wraps, 2 ^ 32 - 6 ms after power-up.\<close>

definition ex_arm_late :: arm_in where
  "ex_arm_late = \<lparr>ms_arm = 4294967290, rnd = (\<lambda>k. k + 7), open_ok = True\<rparr>"

definition ex_arm_fail :: arm_in where
  "ex_arm_fail = \<lparr>ms_arm = 5000, rnd = (\<lambda>k. k + 7), open_ok = False\<rparr>"

definition ex_tick :: "32 word \<Rightarrow> tick_in" where
  "ex_tick ms = \<lparr>ms_loop = ms, adc1 = 512, adc2 = 512, lc_update = True, lc_data = 100000,
                 ms_log = ms, ms_detect = ms, ms_begin = ms, ms_prev = ms\<rparr>"

text \<open>
  Nothing happened between two states but drawing on the display: the state is \<open>ERROR\<close>,
  and the reasons, the sample and the card are as they were.
\<close>

definition quiet :: "State \<Rightarrow> State \<Rightarrow> bool" where
  "quiet s s' =
     (OPERATION_STATE s' = ERROR \<and> ErrorLog s' = ErrorLog s \<and>
      ThermistorData s' = ThermistorData s \<and> LoadCellForceData s' = LoadCellForceData s \<and>
      Sd s' = Sd s \<and> File s' = File s \<and>
      (\<exists>evs. hw_trace s' = hw_trace s @ evs \<and> list_all is_display evs))"

section \<open>Each function as one update of the globals\<close>

lemma relay_writes_append: "relay_writes (xs @ ys) = relay_writes xs @ relay_writes ys"
  by (induction xs rule: relay_writes.induct) simp_all

lemma prints_append: "prints (xs @ ys) = prints xs @ prints ys"
  by (induction xs rule: prints.induct) simp_all

lemma DisplayRenderData_eq:
  "DisplayRenderData s = s\<lparr>hw_trace := hw_trace s @ [DisplayPage (page s)]\<rparr>"
  by (simp add: DisplayRenderData_def emit_def)

lemma GetThermistorData_eq:
  "GetThermistorData t s =
     s\<lparr>ThermistorData := (ReadThermistor (adc1 t) THERMISTOR_1_RESISTANCE 40,
                           ReadThermistor (adc2 t) THERMISTOR_2_RESISTANCE 40),
       hw_trace := hw_trace s @ [AnalogRead GPIO_THERMISTOR_1, AnalogRead GPIO_THERMISTOR_2]\<rparr>"
  by (simp add: GetThermistorData_def emit_def Let_def)

lemma GetLoadCellData_eq:
  "GetLoadCellData t s =
     s\<lparr>LoadCellForceData := (if lc_update t then lc_data t / 100000 else LoadCellForceData s),
       hw_trace := hw_trace s @ LoadCellUpdate # (if lc_update t then [LoadCellGetData] else [])\<rparr>"
  by (simp add: GetLoadCellData_def emit_def Let_def)

lemma LogTestData_eq:
  "LogTestData t s =
     s\<lparr>Sd := card_write (File s)
                (telemetry_line (real (unat (ms_log t)) / 1000) (LoadCellForceData s)
                   (fst (ThermistorData s)) (snd (ThermistorData s))) (Sd s),
       hw_trace := hw_trace s @
         [FilePrintf (telemetry_line (real (unat (ms_log t)) / 1000) (LoadCellForceData s)
                        (fst (ThermistorData s)) (snd (ThermistorData s))),
          FileSync]\<rparr>"
  by (simp add: LogTestData_def File_sync_def File_printf_def emit_def Let_def telemetry_line_def)

lemma DetectCountdownEnd_eq:
  "OPERATION_STATE s = COUNTDOWN \<Longrightarrow>
   DetectCountdownEnd t s =
     s\<lparr>Countdown := countdown_elapsed t s,
       OPERATION_STATE := (if countdown_elapsed t s < 30 then COUNTDOWN else TEST_ACTIVE),
       TestActivatedTime :=
         (if countdown_elapsed t s < 30 then TestActivatedTime s else ucast (ms_begin t)),
       pins := (if countdown_elapsed t s < 30 then pins s else (pins s)(GPIO_RELAY_TOGGLE := LOW)),
       hw_trace := hw_trace s @
         (if countdown_elapsed t s < 30 then [] else [DigitalWrite GPIO_RELAY_TOGGLE LOW])\<rparr>"
  by (simp add: DetectCountdownEnd_def BeginTest_def ToggleRelay_def digitalWrite_def emit_def
      Let_def countdown_elapsed_def TEST_COUNTDOWN_SECONDS_def)

lemma DetectTestEnd_eq:
  "OPERATION_STATE s = TEST_ACTIVE \<Longrightarrow>
   DetectTestEnd t s =
     s\<lparr>TestDuration := test_elapsed t s,
       Countdown := test_elapsed t s + 15,
       OPERATION_STATE := (if test_elapsed t s < 15 then TEST_ACTIVE else POST_TEST),
       File := (if test_elapsed t s < 15 then File s else None),
       pins := (if test_elapsed t s < 15 then pins s
                else (pins s)(GPIO_LED_TEST_ACTIVE := LOW, GPIO_RELAY_TOGGLE := HIGH)),
       hw_trace := hw_trace s @
         (if test_elapsed t s < 15 then []
          else [DigitalWrite GPIO_LED_TEST_ACTIVE LOW, FileClose,
                DigitalWrite GPIO_RELAY_TOGGLE HIGH])\<rparr>"
  by (simp add: DetectTestEnd_def EndTest_def CloseLogFile_def ToggleRelay_def digitalWrite_def
      emit_def Let_def test_elapsed_def TEST_DURATION_SECONDS_def)

lemmas tick_eqs = tick_def DisplayRenderData_eq GetThermistorData_eq GetLoadCellData_eq
  LogTestData_eq DetectCountdownEnd_eq DetectTestEnd_eq

lemma tick_state:
  "OPERATION_STATE (tick t s) =
     (case OPERATION_STATE s of
        COUNTDOWN \<Rightarrow> if countdown_elapsed t s < 30 then COUNTDOWN else TEST_ACTIVE
      | TEST_ACTIVE \<Rightarrow> if test_elapsed t s < 15 then TEST_ACTIVE else POST_TEST
      | st \<Rightarrow> st)"
  by (cases "OPERATION_STATE s") (simp_all add: tick_eqs countdown_elapsed_def test_elapsed_def)

lemma tick_relay_writes:
  "relay_writes (hw_trace (tick t s)) = relay_writes (hw_trace s) @
     (case OPERATION_STATE s of
        COUNTDOWN \<Rightarrow> if countdown_elapsed t s < 30 then [] else [LOW]
      | TEST_ACTIVE \<Rightarrow> if test_elapsed t s < 15 then [] else [HIGH]
      | st \<Rightarrow> [])"
  by (cases "OPERATION_STATE s")
     (simp_all add: tick_eqs countdown_elapsed_def test_elapsed_def relay_writes_append
        GPIO_RELAY_TOGGLE_def GPIO_LED_TEST_ACTIVE_def)


lemma tick_ErrorLog: "ErrorLog (tick t s) = ErrorLog s"
  by (cases "OPERATION_STATE s") (simp_all add: tick_eqs)

lemma is_telemetry_line_telemetry_line [simp]: "is_telemetry_line (telemetry_line a b c d)"
  by (simp add: is_telemetry_line_def telemetry_line_def)

lemma log_shape_snoc:
  "log_shape tr \<Longrightarrow> prints tr' = prints tr @ [l] \<Longrightarrow> is_telemetry_line l \<Longrightarrow> log_shape tr'"
  by (cases "prints tr") (simp_all add: log_shape_def)

lemma log_shape_same: "log_shape tr \<Longrightarrow> prints tr' = prints tr \<Longrightarrow> log_shape tr'"
  by (simp add: log_shape_def)

lemma tick_inv: "reach_inv b s \<Longrightarrow> reach_inv b (tick t s)"
  unfolding reach_inv_def
  by (cases "OPERATION_STATE s")
     (auto simp add: tick_eqs relay_writes_append prints_append log_open_def card_write_def
        GPIO_RELAY_TOGGLE_def GPIO_LED_TEST_ACTIVE_def
        split: option.splits
        elim: log_shape_snoc log_shape_same)

section \<open>The file-name loop and the interrupt handler\<close>

lemma random_100_less: "random 100 x < 100"
  by (simp add: random_def)

lemma loop_result_aux:
  assumes "CreateLogFile_loop raw k fn s = Some r"
  shows "fst r \<notin> dom (Sd s) \<and> (fst r = fn \<or> (\<exists>j. fst r = log_filename (random 100 (raw j)))) \<and>
   (\<exists>evs. snd r = s\<lparr>hw_trace := hw_trace s @ evs\<rparr> \<and> list_all is_probe evs)"
proof (rule CreateLogFile_loop.raw_induct [OF _ assms])
  fix loop :: "(nat \<Rightarrow> nat) \<Rightarrow> nat \<Rightarrow> WString \<Rightarrow> State \<Rightarrow> (WString \<times> State) option"
  fix raw k fn s r
  assume IH: "\<And>raw k fn s r. loop raw k fn s = Some r \<Longrightarrow>
     fst r \<notin> dom (Sd s) \<and> (fst r = fn \<or> (\<exists>j. fst r = log_filename (random 100 (raw j)))) \<and>
     (\<exists>evs. snd r = s\<lparr>hw_trace := hw_trace s @ evs\<rparr> \<and> list_all is_probe evs)"
  assume body: "(if fn \<in> dom (Sd s)
      then loop raw (Suc k) (log_filename (random 100 (raw k))) (emit (SdExists fn) s)
      else Some (fn, emit (SdExists fn) s)) = Some r"
  show "fst r \<notin> dom (Sd s) \<and> (fst r = fn \<or> (\<exists>j. fst r = log_filename (random 100 (raw j)))) \<and>
     (\<exists>evs. snd r = s\<lparr>hw_trace := hw_trace s @ evs\<rparr> \<and> list_all is_probe evs)"
  proof (cases "fn \<in> dom (Sd s)")
    case True
    with body have rec: "loop raw (Suc k) (log_filename (random 100 (raw k))) (emit (SdExists fn) s) = Some r"
      by simp
    from IH[OF rec] obtain evs where
      a: "fst r \<notin> dom (Sd (emit (SdExists fn) s))"
      and b: "fst r = log_filename (random 100 (raw k)) \<or> (\<exists>j. fst r = log_filename (random 100 (raw j)))"
      and c: "snd r = (emit (SdExists fn) s)\<lparr>hw_trace := hw_trace (emit (SdExists fn) s) @ evs\<rparr>"
      and d: "list_all is_probe evs"
      by blast
    from c have "snd r = s\<lparr>hw_trace := hw_trace s @ (SdExists fn # evs)\<rparr>"
      by (simp add: emit_def)
    moreover have "list_all is_probe (SdExists fn # evs)" using d by simp
    ultimately show ?thesis using a b by (auto simp: emit_def)
  next
    case False
    with body have "fst r = fn" "snd r = emit (SdExists fn) s" by auto
    then have "snd r = s\<lparr>hw_trace := hw_trace s @ [SdExists fn]\<rparr> \<and> list_all is_probe [SdExists fn]"
      by (simp add: emit_def)
    with False \<open>fst r = fn\<close> show ?thesis by blast
  qed
qed

lemma loop_result:
  assumes "CreateLogFile_loop raw k fn s = Some (fn', s')"
  shows "fn' \<notin> dom (Sd s)"
    and "fn' = fn \<or> (\<exists>j. fn' = log_filename (random 100 (raw j)))"
    and "\<exists>evs. s' = s\<lparr>hw_trace := hw_trace s @ evs\<rparr> \<and> list_all is_probe evs"
  using loop_result_aux[OF assms] by simp_all

lemma loop_returns:
  "log_filename (random 100 (raw (k + i))) \<notin> dom (Sd s) \<Longrightarrow>
   \<exists>r. CreateLogFile_loop raw (Suc k) (log_filename (random 100 (raw k))) s = Some r"
proof (induction i arbitrary: k s)
  case 0
  then show ?case by (subst CreateLogFile_loop.simps) simp
next
  case (Suc i)
  have "log_filename (random 100 (raw (Suc k + i))) \<notin> dom (Sd (emit (SdExists (log_filename (random 100 (raw k)))) s))"
    using Suc.prems by (simp add: emit_def)
  from Suc.IH[OF this] show ?case
    by (subst CreateLogFile_loop.simps) simp
qed


lemma CreateLogFile_result:
  assumes "CreateLogFile a s = Some (ok, s')"
  shows "\<exists>n evs. log_filename (random 100 (rnd a n)) \<notin> dom (Sd s) \<and> list_all is_probe evs \<and>
           ok = open_ok a \<and>
           s' = s\<lparr>File := (if ok then Some (log_filename (random 100 (rnd a n))) else File s),
                  Sd := (if ok then (Sd s)(log_filename (random 100 (rnd a n)) \<mapsto> []) else Sd s),
                  hw_trace := hw_trace s @ evs @ [FileOpen (log_filename (random 100 (rnd a n)))]\<rparr>"
proof -
  from assms obtain fn s1 where
    lp: "CreateLogFile_loop (rnd a) 1 (log_filename (random 100 (rnd a 0))) s = Some (fn, s1)"
    and op: "File_open fn (open_ok a) s1 = (ok, s')"
    by (auto simp: CreateLogFile_def split: option.splits)
  from loop_result(2)[OF lp] obtain n where n: "fn = log_filename (random 100 (rnd a n))"
    by blast
  from loop_result(3)[OF lp] obtain evs where
    evs: "s1 = s\<lparr>hw_trace := hw_trace s @ evs\<rparr>" "list_all is_probe evs"
    by blast
  have fresh: "fn \<notin> dom (Sd s)" by (rule loop_result(1)[OF lp])
  from op have ok: "ok = open_ok a" by (simp add: File_open_def)
  from op evs(1) fresh have
    "s' = s\<lparr>File := (if ok then Some fn else File s),
           Sd := (if ok then (Sd s)(fn \<mapsto> []) else Sd s),
           hw_trace := hw_trace s @ evs @ [FileOpen fn]\<rparr>"
    by (auto simp: File_open_def emit_def domIff)
  with fresh evs(2) ok n show ?thesis by blast
qed

lemma arm_not_ready:
  "OPERATION_STATE s \<noteq> READY_FOR_COUNTDOWN \<Longrightarrow> InterruptTestStartCommand a s = Some s"
  by (simp add: InterruptTestStartCommand_def)

lemma CreateTelemetryString_eq:
  "CreateTelemetryString s =
     s\<lparr>Sd := card_write (File s) header (Sd s),
       hw_trace := hw_trace s @ [FilePrintf header, FileSync]\<rparr>"
  by (simp add: CreateTelemetryString_def File_sync_def File_printf_def emit_def header_def Let_def)

lemma arm_ready:
  assumes rdy: "OPERATION_STATE s = READY_FOR_COUNTDOWN"
    and res: "InterruptTestStartCommand a s = Some s'"
  shows "\<exists>n evs. log_filename (random 100 (rnd a n)) \<notin> dom (Sd s) \<and> list_all is_probe evs \<and>
           s' = s\<lparr>OPERATION_STATE := (if open_ok a then COUNTDOWN else ERROR),
                  CountdownActivatedTime := ucast (ms_arm a),
                  ErrorLog := (if open_ok a then ErrorLog s
                               else ErrorLog s @ [Text ''STARTUP NOT SUCESSFUL | '']),
                  File := (if open_ok a then Some (log_filename (random 100 (rnd a n))) else File s),
                  Sd := card_write
                          (if open_ok a then Some (log_filename (random 100 (rnd a n))) else File s)
                          header
                          (if open_ok a then (Sd s)(log_filename (random 100 (rnd a n)) \<mapsto> [])
                           else Sd s),
                  pins := (pins s)(GPIO_LED_TEST_ACTIVE := HIGH),
                  hw_trace := hw_trace s @ DigitalWrite GPIO_LED_TEST_ACTIVE HIGH # evs @
                    [FileOpen (log_filename (random 100 (rnd a n))), FilePrintf header, FileSync]\<rparr>"
proof -
  define s1 where "s1 = s\<lparr>pins := (pins s)(GPIO_LED_TEST_ACTIVE := HIGH),
      hw_trace := hw_trace s @ [DigitalWrite GPIO_LED_TEST_ACTIVE HIGH],
      CountdownActivatedTime := ucast (ms_arm a)\<rparr>"
  from rdy res obtain ok s2 where
    cl: "CreateLogFile a s1 = Some (ok, s2)"
    and fin: "s' = (if ok then (CreateTelemetryString s2)\<lparr>OPERATION_STATE := COUNTDOWN\<rparr>
                    else (CreateTelemetryString s2)\<lparr>OPERATION_STATE := ERROR,
                      ErrorLog := ErrorLog (CreateTelemetryString s2) @ [Text ''STARTUP NOT SUCESSFUL | '']\<rparr>)"
    by (auto simp: InterruptTestStartCommand_def digitalWrite_def emit_def Let_def s1_def
        split: option.splits if_splits)
  from CreateLogFile_result[OF cl] obtain n evs where
    fresh: "log_filename (random 100 (rnd a n)) \<notin> dom (Sd s1)"
    and evs: "list_all is_probe evs"
    and ok: "ok = open_ok a"
    and s2: "s2 = s1\<lparr>File := (if ok then Some (log_filename (random 100 (rnd a n))) else File s1),
                  Sd := (if ok then (Sd s1)(log_filename (random 100 (rnd a n)) \<mapsto> []) else Sd s1),
                  hw_trace := hw_trace s1 @ evs @ [FileOpen (log_filename (random 100 (rnd a n)))]\<rparr>"
    by blast
  have "log_filename (random 100 (rnd a n)) \<notin> dom (Sd s)" using fresh by (simp add: s1_def)
  moreover have "s' = s\<lparr>OPERATION_STATE := (if open_ok a then COUNTDOWN else ERROR),
                  CountdownActivatedTime := ucast (ms_arm a),
                  ErrorLog := (if open_ok a then ErrorLog s
                               else ErrorLog s @ [Text ''STARTUP NOT SUCESSFUL | '']),
                  File := (if open_ok a then Some (log_filename (random 100 (rnd a n))) else File s),
                  Sd := card_write
                          (if open_ok a then Some (log_filename (random 100 (rnd a n))) else File s)
                          header
                          (if open_ok a then (Sd s)(log_filename (random 100 (rnd a n)) \<mapsto> [])
                           else Sd s),
                  pins := (pins s)(GPIO_LED_TEST_ACTIVE := HIGH),
                  hw_trace := hw_trace s @ DigitalWrite GPIO_LED_TEST_ACTIVE HIGH # evs @
                    [FileOpen (log_filename (random 100 (rnd a n))), FilePrintf header, FileSync]\<rparr>"
    unfolding fin s2 ok s1_def by (simp add: CreateTelemetryString_eq)
  ultimately show ?thesis using evs by blast
qed

lemma relay_writes_probes: "list_all is_probe evs \<Longrightarrow> relay_writes evs = []"
  by (induction evs rule: relay_writes.induct) simp_all

lemma prints_probes: "list_all is_probe evs \<Longrightarrow> prints evs = []"
  by (induction evs rule: prints.induct) simp_all

lemma arm_inv:
  assumes "reach_inv b s" "InterruptTestStartCommand a s = Some s'"
  shows "reach_inv b s'"
proof (cases "OPERATION_STATE s = READY_FOR_COUNTDOWN")
  case False
  with assms show ?thesis by (simp add: arm_not_ready)
next
  case True
  from arm_ready[OF True assms(2)] obtain n evs where
    "log_filename (random 100 (rnd a n)) \<notin> dom (Sd s)" "list_all is_probe evs"
    "s' = s\<lparr>OPERATION_STATE := (if open_ok a then COUNTDOWN else ERROR),
                  CountdownActivatedTime := ucast (ms_arm a),
                  ErrorLog := (if open_ok a then ErrorLog s
                               else ErrorLog s @ [Text ''STARTUP NOT SUCESSFUL | '']),
                  File := (if open_ok a then Some (log_filename (random 100 (rnd a n))) else File s),
                  Sd := card_write
                          (if open_ok a then Some (log_filename (random 100 (rnd a n))) else File s)
                          header
                          (if open_ok a then (Sd s)(log_filename (random 100 (rnd a n)) \<mapsto> [])
                           else Sd s),
                  pins := (pins s)(GPIO_LED_TEST_ACTIVE := HIGH),
                  hw_trace := hw_trace s @ DigitalWrite GPIO_LED_TEST_ACTIVE HIGH # evs @
                    [FileOpen (log_filename (random 100 (rnd a n))), FilePrintf header, FileSync]\<rparr>"
    by blast
  with assms(1) True show ?thesis
    by (simp add: reach_inv_def relay_writes_append prints_append relay_writes_probes prints_probes
        GPIO_RELAY_TOGGLE_def GPIO_LED_TEST_ACTIVE_def log_shape_def log_open_def card_write_def)
qed

lemma boot_inv: "reach_inv b (boot b)"
  by (simp add: reach_inv_def boot_def setup_fn_def reset_def InitGPIO_def InitRecorder_def
      InitLoadCell_def InitDisplay_def emit_def Let_def)

lemma loop_inv: "reach_inv b s \<Longrightarrow> reach_inv b (loop t s)"
  by (simp add: loop_def tick_inv)

lemma step_inv: "reach_inv b s \<Longrightarrow> step i s = Some s' \<Longrightarrow> reach_inv b s'"
  by (cases i) (auto simp: loop_inv arm_inv)

lemma run_inv: "reach_inv b s \<Longrightarrow> run is s = Some s' \<Longrightarrow> reach_inv b s'"
proof (induction "is" arbitrary: s)
  case Nil
  then show ?case by simp
next
  case (Cons i "is")
  from Cons.prems(2) obtain s1 where "step i s = Some s1" "run is s1 = Some s'"
    by (auto split: option.splits)
  with Cons.IH Cons.prems(1) step_inv show ?case by blast
qed

lemma reachable_inv: "run is (boot b) = Some s \<Longrightarrow> reach_inv b s"
  using run_inv boot_inv by blast

lemmas run_defs = boot_def setup_fn_def reset_def InitGPIO_def InitRecorder_def InitLoadCell_def
  InitDisplay_def CreateLogFile_def CreateLogFile_loop.simps File_open_def
  InterruptTestStartCommand_def CreateTelemetryString_eq digitalWrite_def emit_def Let_def
  random_def loop_def tick_eqs TEST_DATA_SAMPLE_RATE_def countdown_elapsed_def test_elapsed_def
  ex_boot_def ex_boot_no_card_def ex_arm_def ex_arm_fail_def ex_tick_def

section \<open>Relay safety\<close>

text \<open>
  C1. In every state that a run of ticks and arm events reaches from reset, the relay is
  engaged (the last call of \<open>ToggleRelay\<close> was the engaging one) only when the state is
  \<open>TEST_ACTIVE\<close>: it is not engaged in \<open>STARTUP\<close>, \<open>ERROR\<close>, \<open>READY_FOR_COUNTDOWN\<close>,
  \<open>COUNTDOWN\<close> or \<open>POST_TEST\<close>.
\<close>

theorem relay_engaged_only_in_TEST_ACTIVE:
  assumes "run is (boot b) = Some s"
  shows "(relay_engaged (hw_trace s) \<longrightarrow> OPERATION_STATE s = TEST_ACTIVE) \<and>
         (OPERATION_STATE s \<in> {STARTUP, ERROR, READY_FOR_COUNTDOWN, COUNTDOWN, POST_TEST} \<longrightarrow>
            \<not> relay_engaged (hw_trace s))"
proof -
  from reachable_inv[OF assms] have
    "relay_writes (hw_trace s) =
       (case OPERATION_STATE s of TEST_ACTIVE \<Rightarrow> [LOW] | POST_TEST \<Rightarrow> [LOW, HIGH] | _ \<Rightarrow> [])"
    by (simp add: reach_inv_def)
  then show ?thesis
    by (cases "OPERATION_STATE s") (simp_all add: relay_engaged_def)
qed

theorem relay_engaged_only_in_TEST_ACTIVE_witness:
  "\<exists>s. run [Arm ex_arm, Loop (ex_tick 5020), Loop (ex_tick 35000)] (boot ex_boot) = Some s \<and>
       relay_engaged (hw_trace s) \<and> OPERATION_STATE s = TEST_ACTIVE"
proof -
  have "\<exists>s. run [Arm ex_arm, Loop (ex_tick 5020), Loop (ex_tick 35000)] (boot ex_boot) = Some s \<and>
       relay_engaged (hw_trace s)"
    by (simp add: run_defs relay_engaged_def relay_writes_append GPIO_RELAY_TOGGLE_def
        GPIO_LED_TEST_ACTIVE_def)
  then obtain s where
    r: "run [Arm ex_arm, Loop (ex_tick 5020), Loop (ex_tick 35000)] (boot ex_boot) = Some s"
    and e: "relay_engaged (hw_trace s)"
    by blast
  from relay_engaged_only_in_TEST_ACTIVE[OF r] e have "OPERATION_STATE s = TEST_ACTIVE"
    by simp
  with r e show ?thesis by blast
qed

section \<open>Arm events outside \<open>READY_FOR_COUNTDOWN\<close>\<close>

lemma arms_not_ready:
  "OPERATION_STATE s \<noteq> READY_FOR_COUNTDOWN \<Longrightarrow> run (map Arm as) s = Some s"
  by (induction as) (simp_all add: arm_not_ready)

text \<open>
  C3. In every state other than \<open>READY_FOR_COUNTDOWN\<close> (so in \<open>COUNTDOWN\<close>, \<open>TEST_ACTIVE\<close>,
  \<open>POST_TEST\<close>, \<open>ERROR\<close> and \<open>STARTUP\<close>) the arm event, delivered once or any number of
  times, returns and leaves all the globals, the card and the trace as they were: the
  state is unchanged, no countdown start is recorded and no file is opened. An arm event
  that changes the state was delivered in \<open>READY_FOR_COUNTDOWN\<close>.
\<close>

theorem arm_event_ignored_outside_READY:
  "(OPERATION_STATE s \<noteq> READY_FOR_COUNTDOWN \<longrightarrow>
      InterruptTestStartCommand a s = Some s \<and> run (map Arm as) s = Some s) \<and>
   (InterruptTestStartCommand a s = Some s' \<and> OPERATION_STATE s' \<noteq> OPERATION_STATE s \<longrightarrow>
      OPERATION_STATE s = READY_FOR_COUNTDOWN)"
  using arm_not_ready[of s a] arms_not_ready[of s as]
  by (cases "OPERATION_STATE s = READY_FOR_COUNTDOWN") auto

theorem arm_event_ignored_outside_READY_witness:
  "\<exists>s. run [Arm ex_arm] (boot ex_boot) = Some s \<and> OPERATION_STATE s = COUNTDOWN \<and>
       OPERATION_STATE (boot ex_boot) = READY_FOR_COUNTDOWN \<and>
       InterruptTestStartCommand ex_arm s = Some s \<and>
       run (map Arm [ex_arm, ex_arm_fail]) s = Some s"
proof -
  have "\<exists>s. run [Arm ex_arm] (boot ex_boot) = Some s \<and> OPERATION_STATE s = COUNTDOWN"
    by (simp add: run_defs)
  then obtain s where r: "run [Arm ex_arm] (boot ex_boot) = Some s"
    and c: "OPERATION_STATE s = COUNTDOWN"
    by blast
  from r have i: "InterruptTestStartCommand ex_arm (boot ex_boot) = Some s"
    by (simp split: option.splits)
  from c have n: "OPERATION_STATE s \<noteq> READY_FOR_COUNTDOWN" by simp
  have b: "OPERATION_STATE (boot ex_boot) = READY_FOR_COUNTDOWN"
    by (simp add: run_defs)
  from arm_event_ignored_outside_READY[of s ex_arm "[ex_arm, ex_arm_fail]" s] n
  have "InterruptTestStartCommand ex_arm s = Some s \<and> run (map Arm [ex_arm, ex_arm_fail]) s = Some s"
    by blast
  with r c b show ?thesis by blast
qed

section \<open>Fault pinning\<close>

lemma display_no_relay: "list_all is_display evs \<Longrightarrow> relay_writes evs = []"
  by (induction evs rule: relay_writes.induct) simp_all

lemma display_no_prints: "list_all is_display evs \<Longrightarrow> prints evs = []"
  by (induction evs rule: prints.induct) simp_all

lemma display_no_sensor: "list_all is_display evs \<Longrightarrow> filter is_sensor_read evs = []"
  by (induction evs) (auto elim: is_display.elims)

lemma error_step:
  assumes "OPERATION_STATE s = ERROR"
  shows "\<exists>s'. step i s = Some s' \<and> quiet s s'"
proof (cases i)
  case (Loop t)
  with assms show ?thesis
    by (simp add: quiet_def loop_def tick_eqs)
next
  case (Arm a)
  with assms show ?thesis
    by (simp add: quiet_def arm_not_ready)
qed

lemma quiet_trans: "quiet s s1 \<Longrightarrow> quiet s1 s2 \<Longrightarrow> quiet s s2"
  by (auto simp: quiet_def)

lemma error_run:
  assumes "OPERATION_STATE s = ERROR"
  shows "\<exists>s'. run js s = Some s' \<and> quiet s s'"
  using assms
proof (induction js arbitrary: s)
  case Nil
  then show ?case by (simp add: quiet_def)
next
  case (Cons i js)
  from error_step[OF Cons.prems] obtain s1 where s1: "step i s = Some s1" "quiet s s1"
    by blast
  then have "OPERATION_STATE s1 = ERROR" by (simp add: quiet_def)
  from Cons.IH[OF this] obtain s' where "run js s1 = Some s'" "quiet s1 s'" by blast
  with s1 show ?case by (auto intro: quiet_trans)
qed

text \<open>
  C8. Once the error log of a reached state is not empty, the state is \<open>ERROR\<close>, and every
  further sequence of ticks and arm events returns, stays in \<open>ERROR\<close> with the same error
  log, and adds nothing to the trace but display pages: no sensor is read, nothing is
  printed to the log file, the relay pin is not written and the relay is not engaged.
\<close>

theorem fault_is_pinned:
  assumes "run is (boot b) = Some s" and "ErrorLog s \<noteq> []"
  shows "OPERATION_STATE s = ERROR \<and>
         (\<exists>s'. run js s = Some s' \<and> OPERATION_STATE s' = ERROR \<and> ErrorLog s' = ErrorLog s \<and>
            list_all is_display (new_events s s') \<and>
            filter is_sensor_read (new_events s s') = [] \<and>
            prints (new_events s s') = [] \<and>
            relay_writes (new_events s s') = [] \<and>
            \<not> relay_engaged (hw_trace s') \<and>
            ThermistorData s' = ThermistorData s \<and>
            LoadCellForceData s' = LoadCellForceData s \<and> Sd s' = Sd s)"
proof -
  from reachable_inv[OF assms(1)] have inv: "reach_inv b s" .
  with assms(2) have err: "OPERATION_STATE s = ERROR" by (simp add: reach_inv_def)
  from error_run[OF err] obtain s' where r: "run js s = Some s'" and q: "quiet s s'"
    by blast
  from q obtain evs where evs: "hw_trace s' = hw_trace s @ evs" "list_all is_display evs"
    by (auto simp: quiet_def)
  then have ne: "new_events s s' = evs" by (simp add: new_events_def)
  from run_inv[OF inv r] q have "relay_writes (hw_trace s') = []"
    by (simp add: reach_inv_def quiet_def)
  then have "\<not> relay_engaged (hw_trace s')" by (simp add: relay_engaged_def)
  with err r q ne evs(2) show ?thesis
    by (auto simp: quiet_def display_no_relay display_no_prints display_no_sensor)
qed

theorem fault_is_pinned_witness:
  "run [] (boot ex_boot_no_card) = Some (boot ex_boot_no_card) \<and>
   ErrorLog (boot ex_boot_no_card) = [Text ''SD-CARD NOT FOUND | ''] \<and>
   OPERATION_STATE (boot ex_boot_no_card) = ERROR \<and>
   (\<exists>s'. run [Arm ex_arm, Loop (ex_tick 100), Arm ex_arm] (boot ex_boot_no_card) = Some s' \<and>
      OPERATION_STATE s' = ERROR \<and>
      list_all is_display (new_events (boot ex_boot_no_card) s') \<and>
      \<not> relay_engaged (hw_trace s'))"
proof -
  have r: "run [] (boot ex_boot_no_card) = Some (boot ex_boot_no_card)" by simp
  have e: "ErrorLog (boot ex_boot_no_card) = [Text ''SD-CARD NOT FOUND | '']"
    by (simp add: run_defs)
  then have n: "ErrorLog (boot ex_boot_no_card) \<noteq> []" by simp
  from fault_is_pinned[OF r n, of "[Arm ex_arm, Loop (ex_tick 100), Arm ex_arm]"] r e
  show ?thesis by blast
qed

section \<open>Relay polarity\<close>

text \<open>
  C9. \<open>ToggleRelay True\<close> drives the relay pin \<open>LOW\<close> and \<open>ToggleRelay False\<close> drives it
  \<open>HIGH\<close>. Nothing writes the relay pin before \<open>BeginTest\<close>: not the initialisers, and no
  path into \<open>ERROR\<close>. In every reached state that is not \<open>TEST_ACTIVE\<close> or \<open>POST_TEST\<close> the
  pin has never been written and drives the level it had at reset; the first write, if
  there is one, is the \<open>LOW\<close> of \<open>BeginTest\<close>. With a reset level of \<open>LOW\<close> the pin
  therefore drives the engaging level from reset on.
\<close>

theorem relay_active_low_unwritten_before_BeginTest:
  "pins (ToggleRelay True s) GPIO_RELAY_TOGGLE = LOW \<and>
   new_events s (ToggleRelay True s) = [DigitalWrite GPIO_RELAY_TOGGLE LOW] \<and>
   pins (ToggleRelay False s) GPIO_RELAY_TOGGLE = HIGH \<and>
   new_events s (ToggleRelay False s) = [DigitalWrite GPIO_RELAY_TOGGLE HIGH] \<and>
   relay_writes (hw_trace (boot b)) = [] \<and>
   pins (boot b) GPIO_RELAY_TOGGLE = reset_level b \<and>
   (run is (boot b) = Some s' \<longrightarrow>
      (OPERATION_STATE s' \<in> {STARTUP, ERROR, READY_FOR_COUNTDOWN, COUNTDOWN} \<longrightarrow>
         relay_writes (hw_trace s') = [] \<and> pins s' GPIO_RELAY_TOGGLE = reset_level b) \<and>
      (relay_writes (hw_trace s') \<noteq> [] \<longrightarrow>
         hd (relay_writes (hw_trace s')) = LOW \<and> OPERATION_STATE s' \<in> {TEST_ACTIVE, POST_TEST}))"
proof -
  have a: "pins (ToggleRelay True s) GPIO_RELAY_TOGGLE = LOW \<and>
     new_events s (ToggleRelay True s) = [DigitalWrite GPIO_RELAY_TOGGLE LOW] \<and>
     pins (ToggleRelay False s) GPIO_RELAY_TOGGLE = HIGH \<and>
     new_events s (ToggleRelay False s) = [DigitalWrite GPIO_RELAY_TOGGLE HIGH]"
    by (simp add: ToggleRelay_def digitalWrite_def emit_def new_events_def)
  have b: "relay_writes (hw_trace (boot b)) = [] \<and> pins (boot b) GPIO_RELAY_TOGGLE = reset_level b"
    by (simp add: boot_def setup_fn_def reset_def InitGPIO_def InitRecorder_def InitLoadCell_def
        InitDisplay_def emit_def Let_def)
  have c: "(OPERATION_STATE s' \<in> {STARTUP, ERROR, READY_FOR_COUNTDOWN, COUNTDOWN} \<longrightarrow>
         relay_writes (hw_trace s') = [] \<and> pins s' GPIO_RELAY_TOGGLE = reset_level b) \<and>
      (relay_writes (hw_trace s') \<noteq> [] \<longrightarrow>
         hd (relay_writes (hw_trace s')) = LOW \<and> OPERATION_STATE s' \<in> {TEST_ACTIVE, POST_TEST})"
    if "run is (boot b) = Some s'"
    using reachable_inv[OF that] by (cases "OPERATION_STATE s'") (simp_all add: reach_inv_def)
  from a b c show ?thesis by blast
qed

theorem relay_active_low_unwritten_before_BeginTest_witness:
  "\<exists>s'. run [Arm ex_arm_fail, Loop (ex_tick 100)] (boot ex_boot) = Some s' \<and>
     OPERATION_STATE s' = ERROR \<and> relay_writes (hw_trace s') = [] \<and>
     pins s' GPIO_RELAY_TOGGLE = LOW \<and>
     pins (ToggleRelay True s') GPIO_RELAY_TOGGLE = LOW"
proof -
  have "\<exists>s'. run [Arm ex_arm_fail, Loop (ex_tick 100)] (boot ex_boot) = Some s' \<and>
     OPERATION_STATE s' = ERROR"
    by (simp add: run_defs)
  then obtain s' where r: "run [Arm ex_arm_fail, Loop (ex_tick 100)] (boot ex_boot) = Some s'"
    and e: "OPERATION_STATE s' = ERROR"
    by blast
  have l: "reset_level ex_boot = LOW" by (simp add: ex_boot_def)
  from relay_active_low_unwritten_before_BeginTest
         [of s' ex_boot "[Arm ex_arm_fail, Loop (ex_tick 100)]" s'] r e l
  show ?thesis by auto
qed

section \<open>Countdown expiry\<close>

lemma after_test_step:
  assumes "OPERATION_STATE s = TEST_ACTIVE \<or> OPERATION_STATE s = POST_TEST"
    and "step i s = Some s'"
  shows "OPERATION_STATE s' = TEST_ACTIVE \<or> OPERATION_STATE s' = POST_TEST"
proof (cases i)
  case (Loop t)
  with assms have "s' = loop t s" by simp
  with assms(1) show ?thesis
    by (cases "1000 / TEST_DATA_SAMPLE_RATE \<le> real (unat (ucast (ms_loop t) - MainLoopPrev s))")
       (auto simp: loop_def tick_state)
next
  case (Arm a)
  with assms show ?thesis by (auto simp: arm_not_ready)
qed

lemma after_test_run:
  "OPERATION_STATE s = TEST_ACTIVE \<or> OPERATION_STATE s = POST_TEST \<Longrightarrow>
   run js s = Some s' \<Longrightarrow>
   OPERATION_STATE s' = TEST_ACTIVE \<or> OPERATION_STATE s' = POST_TEST"
proof (induction js arbitrary: s)
  case Nil
  then show ?case by simp
next
  case (Cons i js)
  from Cons.prems(2) obtain s1 where s1: "step i s = Some s1" "run js s1 = Some s'"
    by (auto split: option.splits)
  from after_test_step[OF Cons.prems(1) s1(1)] Cons.IH s1(2) show ?case by blast
qed

text \<open>
  What a tick in a reached state \<open>COUNTDOWN\<close> does, in terms of the seconds the program
  itself computes, \<open>countdown_elapsed\<close>: below \<open>TEST_COUNTDOWN_SECONDS\<close> the state stays
  \<open>COUNTDOWN\<close> and the relay pin stays unwritten; at or above it the state becomes
  \<open>TEST_ACTIVE\<close> with one engaging write, and from then on the state is \<open>TEST_ACTIVE\<close> or
  \<open>POST_TEST\<close> and the trace holds exactly one engaging write.
\<close>

lemma countdown_tick:
  assumes "run is (boot b) = Some s" and "OPERATION_STATE s = COUNTDOWN"
  shows "relay_writes (hw_trace s) = [] \<and>
         Countdown (tick t s) = countdown_elapsed t s \<and>
         (countdown_elapsed t s < TEST_COUNTDOWN_SECONDS \<longrightarrow>
            OPERATION_STATE (tick t s) = COUNTDOWN \<and> relay_writes (hw_trace (tick t s)) = []) \<and>
         (TEST_COUNTDOWN_SECONDS \<le> countdown_elapsed t s \<longrightarrow>
            OPERATION_STATE (tick t s) = TEST_ACTIVE \<and>
            relay_writes (hw_trace (tick t s)) = [LOW] \<and>
            (\<forall>js s'. run js (tick t s) = Some s' \<longrightarrow>
               (OPERATION_STATE s' = TEST_ACTIVE \<or> OPERATION_STATE s' = POST_TEST) \<and>
               length (filter (\<lambda>l. l = LOW) (relay_writes (hw_trace s'))) = 1))"
proof -
  from reachable_inv[OF assms(1)] have inv: "reach_inv b s" .
  with assms(2) have w0: "relay_writes (hw_trace s) = []" by (simp add: reach_inv_def)
  have cd: "Countdown (tick t s) = countdown_elapsed t s"
    using assms(2) by (simp add: tick_eqs countdown_elapsed_def)
  have st: "OPERATION_STATE (tick t s) =
      (if countdown_elapsed t s < 30 then COUNTDOWN else TEST_ACTIVE)"
    using assms(2) by (simp add: tick_state)
  have wr: "relay_writes (hw_trace (tick t s)) =
      (if countdown_elapsed t s < 30 then [] else [LOW])"
    using assms(2) w0 by (simp add: tick_relay_writes)
  have later: "(OPERATION_STATE s' = TEST_ACTIVE \<or> OPERATION_STATE s' = POST_TEST) \<and>
       length (filter (\<lambda>l. l = LOW) (relay_writes (hw_trace s'))) = 1"
    if exp: "TEST_COUNTDOWN_SECONDS \<le> countdown_elapsed t s" and r: "run js (tick t s) = Some s'"
    for js s'
  proof -
    from exp st have "OPERATION_STATE (tick t s) = TEST_ACTIVE"
      by (simp add: TEST_COUNTDOWN_SECONDS_def)
    then have a: "OPERATION_STATE s' = TEST_ACTIVE \<or> OPERATION_STATE s' = POST_TEST"
      using after_test_run r by blast
    from run_inv[OF tick_inv[OF inv] r] have "reach_inv b s'" .
    with a show ?thesis by (auto simp: reach_inv_def)
  qed
  from w0 cd st wr later show ?thesis
    by (simp add: TEST_COUNTDOWN_SECONDS_def)
qed

text \<open>
  The seconds the program computes are the seconds since arming only while the 32-bit
  clock has not wrapped since: the start is kept in 64 bits and the difference is taken
  in 64 bits, so a clock reading below the stored start gives a difference of almost
  2 ^ 64 ms, and the tick ends the countdown at once.
\<close>

lemma unat_ucast_32_64: "unat (ucast (x :: 32 word) :: 64 word) = unat x"
proof -
  have "unat x < 2 ^ 32" using unsigned_less[of x] by simp
  then have "unat x < 2 ^ 64" by simp
  then show ?thesis by (simp add: unsigned_ucast_eq take_bit_nat_eq_self)
qed

lemma elapsed_without_wrap:
  assumes "unat (CountdownActivatedTime s) \<le> unat (ms_detect t)"
  shows "countdown_elapsed t s =
           (real (unat (ms_detect t)) - real (unat (CountdownActivatedTime s))) / 1000"
proof -
  have "unat (ucast (ms_detect t) - CountdownActivatedTime s) =
        unat (ms_detect t) - unat (CountdownActivatedTime s)"
    using assms by (simp add: unat_sub_if' unat_ucast_32_64)
  with assms show ?thesis
    by (simp add: countdown_elapsed_def of_nat_diff)
qed

lemma elapsed_after_wrap:
  assumes "unat (ms_detect t) < unat (CountdownActivatedTime s)"
    and "unat (CountdownActivatedTime s) < 2 ^ 32"
  shows "30 \<le> countdown_elapsed t s"
proof -
  have "unat (ucast (ms_detect t) - CountdownActivatedTime s) =
        unat (ms_detect t) + 2 ^ 64 - unat (CountdownActivatedTime s)"
    using assms(1) by (simp add: unat_sub_if' unat_ucast_32_64)
  with assms(2) have "30000 \<le> unat (ucast (ms_detect t) - CountdownActivatedTime s)"
    by simp
  then have "(30000 :: real) \<le> real (unat (ucast (ms_detect t) - CountdownActivatedTime s))"
    by (metis of_nat_le_iff of_nat_numeral)
  then show ?thesis by (simp add: countdown_elapsed_def)
qed

lemma wrapped_clock_ends_countdown:
  assumes "OPERATION_STATE s = COUNTDOWN"
    and "unat (ms_detect t) < unat (CountdownActivatedTime s)"
    and "unat (CountdownActivatedTime s) < 2 ^ 32"
  shows "OPERATION_STATE (tick t s) = TEST_ACTIVE \<and>
         relay_writes (hw_trace (tick t s)) = relay_writes (hw_trace s) @ [LOW]"
proof -
  from elapsed_after_wrap[OF assms(2,3)] have "\<not> countdown_elapsed t s < 30" by simp
  with assms(1) show ?thesis
    by (simp add: tick_state tick_relay_writes)
qed

text \<open>
  C6. The claim: while the time elapsed since arming is below the countdown limit the
  state remains \<open>COUNTDOWN\<close>, and the relay is engaged on the first tick at or past the
  limit. The program breaks it across a wrap of the clock: armed at 4294967290 ms, the
  pass of \<^verbatim>\<open>loop()\<close> 26 ms later reads the clock as 20 ms, computes a countdown that is
  not below 30 s, enters \<open>TEST_ACTIVE\<close> and engages the relay.
\<close>

theorem countdown_skipped_after_clock_wrap:
  "map_option (\<lambda>s. (OPERATION_STATE s, CountdownActivatedTime s, relay_writes (hw_trace s)))
     (run [Arm ex_arm_late] (boot ex_boot)) = Some (COUNTDOWN, 4294967290, []) \<and>
   unat ((20 :: 32 word) - ms_arm ex_arm_late) = 26 \<and>
   map_option (\<lambda>s. (OPERATION_STATE s, relay_writes (hw_trace s), Countdown s < 30))
     (run [Arm ex_arm_late, Loop (ex_tick 20)] (boot ex_boot)) = Some (TEST_ACTIVE, [LOW], False)"
  by (simp add: run_defs ex_arm_late_def relay_writes_append GPIO_RELAY_TOGGLE_def
      GPIO_LED_TEST_ACTIVE_def)

section \<open>Entering \<open>ERROR\<close>\<close>

text \<open>
  C2, as stated, fails: \<^verbatim>\<open>setup()\<close> without a card goes from \<open>STARTUP\<close> to \<open>ERROR\<close>, and a
  failed open at arm time goes from \<open>READY_FOR_COUNTDOWN\<close> to \<open>ERROR\<close>, and in both the relay
  pin is never written: no disengage is invoked.
\<close>

theorem fault_entry_without_disengage:
  "OPERATION_STATE (reset ex_boot_no_card) = STARTUP \<and>
   OPERATION_STATE (boot ex_boot_no_card) = ERROR \<and>
   relay_writes (hw_trace (boot ex_boot_no_card)) = [] \<and>
   OPERATION_STATE (boot ex_boot) = READY_FOR_COUNTDOWN \<and>
   map_option (\<lambda>s. (OPERATION_STATE s, relay_writes (hw_trace s)))
     (run [Arm ex_arm_fail] (boot ex_boot)) = Some (ERROR, [])"
  by (simp add: run_defs relay_writes_append GPIO_RELAY_TOGGLE_def GPIO_LED_TEST_ACTIVE_def)

lemma boot_fault:
  "OPERATION_STATE (boot b) =
     (if sd_begin_ok b \<and> \<not> tare_timeout b then READY_FOR_COUNTDOWN else ERROR) \<and>
   ErrorLog (boot b) =
     (if sd_begin_ok b then [] else [Text ''SD-CARD NOT FOUND | '']) @
     (if tare_timeout b then [Text ''LOAD CELL TARE UNSUCESSFUL | ''] else []) \<and>
   relay_writes (hw_trace (boot b)) = [] \<and>
   pins (boot b) GPIO_RELAY_TOGGLE = reset_level b"
  by (simp add: boot_def setup_fn_def reset_def InitGPIO_def InitRecorder_def InitLoadCell_def
      InitDisplay_def emit_def Let_def)

text \<open>
  C2, amended. Every transition into \<open>ERROR\<close> sets the state and appends its reason to the
  error log, and does not touch the relay. In \<^verbatim>\<open>setup()\<close>, a card that does not start or a
  tare that times out gives \<open>ERROR\<close> with the reasons appended in that order, the relay pin
  unwritten and at its reset level. After \<^verbatim>\<open>setup()\<close>, the only step from another state into
  \<open>ERROR\<close> is the arm event in \<open>READY_FOR_COUNTDOWN\<close> whose file open fails; it appends
  its reason, writes the relay pin not at all and leaves its level as it was.
\<close>

theorem fault_entry_appends_reason_only:
  "(\<not> (sd_begin_ok b \<and> \<not> tare_timeout b) \<longrightarrow>
      OPERATION_STATE (boot b) = ERROR \<and>
      ErrorLog (boot b) =
        (if sd_begin_ok b then [] else [Text ''SD-CARD NOT FOUND | '']) @
        (if tare_timeout b then [Text ''LOAD CELL TARE UNSUCESSFUL | ''] else []) \<and>
      relay_writes (hw_trace (boot b)) = [] \<and>
      pins (boot b) GPIO_RELAY_TOGGLE = reset_level b) \<and>
   (step i s = Some s' \<and> OPERATION_STATE s \<noteq> ERROR \<and> OPERATION_STATE s' = ERROR \<longrightarrow>
      OPERATION_STATE s = READY_FOR_COUNTDOWN \<and>
      (\<exists>a. i = Arm a \<and> \<not> open_ok a) \<and>
      ErrorLog s' = ErrorLog s @ [Text ''STARTUP NOT SUCESSFUL | ''] \<and>
      relay_writes (new_events s s') = [] \<and>
      pins s' GPIO_RELAY_TOGGLE = pins s GPIO_RELAY_TOGGLE)"
proof -
  have stp: "OPERATION_STATE s = READY_FOR_COUNTDOWN \<and>
      (\<exists>a. i = Arm a \<and> \<not> open_ok a) \<and>
      ErrorLog s' = ErrorLog s @ [Text ''STARTUP NOT SUCESSFUL | ''] \<and>
      relay_writes (new_events s s') = [] \<and>
      pins s' GPIO_RELAY_TOGGLE = pins s GPIO_RELAY_TOGGLE"
    if st: "step i s = Some s'" and ne: "OPERATION_STATE s \<noteq> ERROR"
      and e: "OPERATION_STATE s' = ERROR"
  proof (cases i)
    case (Loop t)
    with st have "s' = loop t s" by simp
    with ne e show ?thesis
      by (cases "OPERATION_STATE s") (auto simp: loop_def tick_state split: if_splits)
  next
    case (Arm a)
    with st have h: "InterruptTestStartCommand a s = Some s'" by simp
    have rdy: "OPERATION_STATE s = READY_FOR_COUNTDOWN"
      using h ne e arm_not_ready[of s a] by (cases "OPERATION_STATE s = READY_FOR_COUNTDOWN") auto
    from arm_ready[OF rdy h] obtain n evs where
      evs: "list_all is_probe evs" and
      s': "s' = s\<lparr>OPERATION_STATE := (if open_ok a then COUNTDOWN else ERROR),
                  CountdownActivatedTime := ucast (ms_arm a),
                  ErrorLog := (if open_ok a then ErrorLog s
                               else ErrorLog s @ [Text ''STARTUP NOT SUCESSFUL | '']),
                  File := (if open_ok a then Some (log_filename (random 100 (rnd a n))) else File s),
                  Sd := card_write
                          (if open_ok a then Some (log_filename (random 100 (rnd a n))) else File s)
                          header
                          (if open_ok a then (Sd s)(log_filename (random 100 (rnd a n)) \<mapsto> [])
                           else Sd s),
                  pins := (pins s)(GPIO_LED_TEST_ACTIVE := HIGH),
                  hw_trace := hw_trace s @ DigitalWrite GPIO_LED_TEST_ACTIVE HIGH # evs @
                    [FileOpen (log_filename (random 100 (rnd a n))), FilePrintf header, FileSync]\<rparr>"
      by blast
    from e s' have nok: "\<not> open_ok a" by (auto split: if_splits)
    with s' evs rdy Arm show ?thesis
      by (simp add: new_events_def relay_writes_append relay_writes_probes
          GPIO_RELAY_TOGGLE_def GPIO_LED_TEST_ACTIVE_def)
  qed
  from boot_fault[of b] stp show ?thesis by auto
qed

theorem fault_entry_appends_reason_only_witness:
  "OPERATION_STATE (boot ex_boot_no_card) = ERROR \<and>
   ErrorLog (boot ex_boot_no_card) = [Text ''SD-CARD NOT FOUND | ''] \<and>
   relay_writes (hw_trace (boot ex_boot_no_card)) = [] \<and>
   (\<exists>s'. step (Arm ex_arm_fail) (boot ex_boot) = Some s' \<and>
      OPERATION_STATE (boot ex_boot) = READY_FOR_COUNTDOWN \<and> OPERATION_STATE s' = ERROR \<and>
      ErrorLog s' = [Text ''STARTUP NOT SUCESSFUL | ''] \<and>
      relay_writes (new_events (boot ex_boot) s') = [])"
proof -
  have b: "\<not> (sd_begin_ok ex_boot_no_card \<and> \<not> tare_timeout ex_boot_no_card)"
    "sd_begin_ok ex_boot_no_card = False" "tare_timeout ex_boot_no_card = False"
    by (simp_all add: ex_boot_no_card_def)
  have "\<exists>s'. step (Arm ex_arm_fail) (boot ex_boot) = Some s' \<and> OPERATION_STATE s' = ERROR"
    by (simp add: run_defs)
  then obtain s' where st: "step (Arm ex_arm_fail) (boot ex_boot) = Some s'"
    and e: "OPERATION_STATE s' = ERROR"
    by blast
  have r: "OPERATION_STATE (boot ex_boot) = READY_FOR_COUNTDOWN" "ErrorLog (boot ex_boot) = []"
    by (simp_all add: run_defs)
  from fault_entry_appends_reason_only[of ex_boot_no_card "Arm ex_arm_fail" "boot ex_boot" s']
    b st e r
  show ?thesis by auto
qed

section \<open>What the interrupt handler does\<close>

text \<open>
  C4, as stated, fails: there is no pending flag among the globals, and the handler, run
  in \<open>READY_FOR_COUNTDOWN\<close>, itself changes the state, records the countdown start, probes
  the card, opens the log file and prints the header.
\<close>

theorem handler_does_more_than_flag:
  "OPERATION_STATE (boot ex_boot) = READY_FOR_COUNTDOWN \<and>
   CountdownActivatedTime (boot ex_boot) = 0 \<and>
   File (boot ex_boot) = None \<and>
   Sd (boot ex_boot) (log_filename 7) = None \<and>
   map_option (\<lambda>s. (OPERATION_STATE s, CountdownActivatedTime s, File s, Sd s (log_filename 7)))
     (InterruptTestStartCommand ex_arm (boot ex_boot)) =
     Some (COUNTDOWN, 5000, Some (log_filename 7), Some [header]) \<and>
   map_option (\<lambda>s. new_events (boot ex_boot) s)
     (InterruptTestStartCommand ex_arm (boot ex_boot)) =
     Some [DigitalWrite GPIO_LED_TEST_ACTIVE HIGH, SdExists (log_filename 7),
           FileOpen (log_filename 7), FilePrintf header, FileSync]"
  by (simp add: run_defs new_events_def card_write_def log_filename_def)

text \<open>
  C4, amended. The interrupt handler does the whole arm transition itself. Run in
  \<open>READY_FOR_COUNTDOWN\<close>, it returns exactly when some draw of the generator gives a file
  name that is not on the card; otherwise it stays in its file-name loop for ever. When
  it returns it has switched the test LED on, recorded the clock as the countdown start,
  probed the card for a free file name, tried to open that file, printed the header, and
  set the state to \<open>COUNTDOWN\<close>, or to \<open>ERROR\<close> when the open failed. Run in any other state
  it returns at once and changes nothing. Nothing is deferred to the main loop: a pass
  of \<^verbatim>\<open>loop()\<close> in \<open>READY_FOR_COUNTDOWN\<close> leaves the state, the countdown start, the file and
  the card as they were.
\<close>

theorem handler_performs_arm_transition:
  "(OPERATION_STATE s = READY_FOR_COUNTDOWN \<longrightarrow>
      ((\<exists>s1. InterruptTestStartCommand a s = Some s1) \<longleftrightarrow>
       (\<exists>j. log_filename (random 100 (rnd a j)) \<notin> dom (Sd s)))) \<and>
   (OPERATION_STATE s = READY_FOR_COUNTDOWN \<and> InterruptTestStartCommand a s = Some s' \<longrightarrow>
      OPERATION_STATE s' = (if open_ok a then COUNTDOWN else ERROR) \<and>
      CountdownActivatedTime s' = ucast (ms_arm a) \<and>
      pins s' GPIO_LED_TEST_ACTIVE = HIGH \<and>
      (\<exists>n evs. list_all is_probe evs \<and>
         log_filename (random 100 (rnd a n)) \<notin> dom (Sd s) \<and>
         new_events s s' =
           DigitalWrite GPIO_LED_TEST_ACTIVE HIGH # evs @
           [FileOpen (log_filename (random 100 (rnd a n))), FilePrintf header, FileSync])) \<and>
   (OPERATION_STATE s \<noteq> READY_FOR_COUNTDOWN \<longrightarrow> InterruptTestStartCommand a s = Some s) \<and>
   (OPERATION_STATE s = READY_FOR_COUNTDOWN \<longrightarrow>
      OPERATION_STATE (loop t s) = READY_FOR_COUNTDOWN \<and>
      CountdownActivatedTime (loop t s) = CountdownActivatedTime s \<and>
      File (loop t s) = File s \<and> Sd (loop t s) = Sd s)"
proof -
  have ret: "(\<exists>s1. InterruptTestStartCommand a s = Some s1) \<longleftrightarrow>
       (\<exists>j. log_filename (random 100 (rnd a j)) \<notin> dom (Sd s))"
    if rdy: "OPERATION_STATE s = READY_FOR_COUNTDOWN"
  proof
    assume "\<exists>s1. InterruptTestStartCommand a s = Some s1"
    then obtain s1 where "InterruptTestStartCommand a s = Some s1" ..
    from arm_ready[OF rdy this] show "\<exists>j. log_filename (random 100 (rnd a j)) \<notin> dom (Sd s)"
      by blast
  next
    assume "\<exists>j. log_filename (random 100 (rnd a j)) \<notin> dom (Sd s)"
    then obtain j where j: "log_filename (random 100 (rnd a j)) \<notin> dom (Sd s)" ..
    define s0 where "s0 = s\<lparr>pins := (pins s)(GPIO_LED_TEST_ACTIVE := HIGH),
      hw_trace := hw_trace s @ [DigitalWrite GPIO_LED_TEST_ACTIVE HIGH],
      CountdownActivatedTime := ucast (ms_arm a)\<rparr>"
    from j have "log_filename (random 100 (rnd a (0 + j))) \<notin> dom (Sd s0)"
      by (simp add: s0_def)
    from loop_returns[of "rnd a" 0 j s0, OF this] obtain r where
      "CreateLogFile_loop (rnd a) (Suc 0) (log_filename (random 100 (rnd a 0))) s0 = Some r"
      by blast
    then have "CreateLogFile a s0 \<noteq> None"
      by (cases r) (simp add: CreateLogFile_def)
    with rdy show "\<exists>s1. InterruptTestStartCommand a s = Some s1"
      by (auto simp: InterruptTestStartCommand_def digitalWrite_def emit_def Let_def s0_def
          split: option.splits)
  qed
  have a: "OPERATION_STATE s' = (if open_ok a then COUNTDOWN else ERROR) \<and>
      CountdownActivatedTime s' = ucast (ms_arm a) \<and>
      pins s' GPIO_LED_TEST_ACTIVE = HIGH \<and>
      (\<exists>n evs. list_all is_probe evs \<and>
         log_filename (random 100 (rnd a n)) \<notin> dom (Sd s) \<and>
         new_events s s' =
           DigitalWrite GPIO_LED_TEST_ACTIVE HIGH # evs @
           [FileOpen (log_filename (random 100 (rnd a n))), FilePrintf header, FileSync])"
    if rdy: "OPERATION_STATE s = READY_FOR_COUNTDOWN"
      and h: "InterruptTestStartCommand a s = Some s'"
  proof -
    from arm_ready[OF rdy h] obtain n evs where
      fresh: "log_filename (random 100 (rnd a n)) \<notin> dom (Sd s)" and
      evs: "list_all is_probe evs" and
      s': "s' = s\<lparr>OPERATION_STATE := (if open_ok a then COUNTDOWN else ERROR),
                  CountdownActivatedTime := ucast (ms_arm a),
                  ErrorLog := (if open_ok a then ErrorLog s
                               else ErrorLog s @ [Text ''STARTUP NOT SUCESSFUL | '']),
                  File := (if open_ok a then Some (log_filename (random 100 (rnd a n))) else File s),
                  Sd := card_write
                          (if open_ok a then Some (log_filename (random 100 (rnd a n))) else File s)
                          header
                          (if open_ok a then (Sd s)(log_filename (random 100 (rnd a n)) \<mapsto> [])
                           else Sd s),
                  pins := (pins s)(GPIO_LED_TEST_ACTIVE := HIGH),
                  hw_trace := hw_trace s @ DigitalWrite GPIO_LED_TEST_ACTIVE HIGH # evs @
                    [FileOpen (log_filename (random 100 (rnd a n))), FilePrintf header, FileSync]\<rparr>"
      by blast
    have "new_events s s' =
           DigitalWrite GPIO_LED_TEST_ACTIVE HIGH # evs @
           [FileOpen (log_filename (random 100 (rnd a n))), FilePrintf header, FileSync]"
      unfolding s' by (simp add: new_events_def)
    with fresh evs have ex: "\<exists>n evs. list_all is_probe evs \<and>
         log_filename (random 100 (rnd a n)) \<notin> dom (Sd s) \<and>
         new_events s s' =
           DigitalWrite GPIO_LED_TEST_ACTIVE HIGH # evs @
           [FileOpen (log_filename (random 100 (rnd a n))), FilePrintf header, FileSync]"
      by blast
    have "OPERATION_STATE s' = (if open_ok a then COUNTDOWN else ERROR) \<and>
      CountdownActivatedTime s' = ucast (ms_arm a) \<and> pins s' GPIO_LED_TEST_ACTIVE = HIGH"
      unfolding s' by simp
    with ex show ?thesis by blast
  qed
  have c: "OPERATION_STATE (loop t s) = READY_FOR_COUNTDOWN \<and>
      CountdownActivatedTime (loop t s) = CountdownActivatedTime s \<and>
      File (loop t s) = File s \<and> Sd (loop t s) = Sd s"
    if "OPERATION_STATE s = READY_FOR_COUNTDOWN"
    using that by (simp add: loop_def tick_eqs)
  from ret a c arm_not_ready[of s a] show ?thesis by blast
qed

theorem handler_performs_arm_transition_witness:
  "OPERATION_STATE (boot ex_boot) = READY_FOR_COUNTDOWN \<and>
   (\<exists>s'. InterruptTestStartCommand ex_arm (boot ex_boot) = Some s' \<and>
      OPERATION_STATE s' = COUNTDOWN \<and> CountdownActivatedTime s' = 5000 \<and>
      InterruptTestStartCommand ex_arm s' = Some s') \<and>
   OPERATION_STATE (loop (ex_tick 100) (boot ex_boot)) = READY_FOR_COUNTDOWN \<and>
   OPERATION_STATE (boot ex_boot_full) = READY_FOR_COUNTDOWN \<and>
   InterruptTestStartCommand ex_arm (boot ex_boot_full) = None"
proof -
  have r: "OPERATION_STATE (boot ex_boot) = READY_FOR_COUNTDOWN"
    by (simp add: run_defs)
  have "log_filename (random 100 (rnd ex_arm 0)) \<notin> dom (Sd (boot ex_boot))"
    by (simp add: run_defs)
  then have "\<exists>j. log_filename (random 100 (rnd ex_arm j)) \<notin> dom (Sd (boot ex_boot))" ..
  with handler_performs_arm_transition[of "boot ex_boot" ex_arm "boot ex_boot" "ex_tick 100"] r
  obtain s' where h: "InterruptTestStartCommand ex_arm (boot ex_boot) = Some s'"
    by blast
  have o: "open_ok ex_arm" "ucast (ms_arm ex_arm) = (5000 :: 64 word)"
    by (simp_all add: ex_arm_def)
  from handler_performs_arm_transition[of "boot ex_boot" ex_arm s' "ex_tick 100"] r h o
  have 1: "OPERATION_STATE s' = COUNTDOWN \<and> CountdownActivatedTime s' = 5000 \<and>
    OPERATION_STATE (loop (ex_tick 100) (boot ex_boot)) = READY_FOR_COUNTDOWN"
    by simp
  then have "OPERATION_STATE s' \<noteq> READY_FOR_COUNTDOWN" by simp
  with handler_performs_arm_transition[of s' ex_arm s' "ex_tick 100"]
  have 2: "InterruptTestStartCommand ex_arm s' = Some s'" by blast
  have rf: "OPERATION_STATE (boot ex_boot_full) = READY_FOR_COUNTDOWN"
    by (simp add: boot_def setup_fn_def reset_def InitGPIO_def InitRecorder_def InitLoadCell_def
        InitDisplay_def emit_def Let_def ex_boot_full_def)
  have full: "\<forall>n<100. log_filename n \<in> dom (Sd (boot ex_boot_full))"
    by (simp add: boot_def setup_fn_def reset_def InitGPIO_def InitRecorder_def InitLoadCell_def
        InitDisplay_def emit_def Let_def ex_boot_full_def dom_def)
  have "\<not> (\<exists>j. log_filename (random 100 (rnd ex_arm j)) \<notin> dom (Sd (boot ex_boot_full)))"
    using full random_100_less by blast
  with handler_performs_arm_transition[of "boot ex_boot_full" ex_arm "boot ex_boot_full" "ex_tick 100"] rf
  have 3: "InterruptTestStartCommand ex_arm (boot ex_boot_full) = None"
    by (cases "InterruptTestStartCommand ex_arm (boot ex_boot_full)") auto
  from r h 1 2 rf 3 show ?thesis by blast
qed

section \<open>What a tick refreshes\<close>

text \<open>
  C5, as stated, fails: a tick in \<open>ERROR\<close> draws the display and reads no sensor; the
  load cell has a new value ready and the stored force stays what it was.
\<close>

theorem no_sensor_refresh_in_ERROR:
  "OPERATION_STATE (boot ex_boot_no_card) = ERROR \<and>
   new_events (boot ex_boot_no_card) (loop (ex_tick 100) (boot ex_boot_no_card)) =
     [DisplayPage (page (boot ex_boot_no_card))] \<and>
   filter is_sensor_read
     (new_events (boot ex_boot_no_card) (loop (ex_tick 100) (boot ex_boot_no_card))) = [] \<and>
   lc_update (ex_tick 100) \<and> lc_data (ex_tick 100) / 100000 = 1 \<and>
   LoadCellForceData (loop (ex_tick 100) (boot ex_boot_no_card)) = 0 \<and>
   ThermistorData (loop (ex_tick 100) (boot ex_boot_no_card)) = (0, 0)"
proof -
  have e: "OPERATION_STATE (boot ex_boot_no_card) = ERROR"
    and m: "MainLoopPrev (boot ex_boot_no_card) = 0"
    and f: "LoadCellForceData (boot ex_boot_no_card) = 0"
    and d: "ThermistorData (boot ex_boot_no_card) = (0, 0)"
    by (simp_all add: run_defs)
  have l: "loop (ex_tick 100) (boot ex_boot_no_card) = tick (ex_tick 100) (boot ex_boot_no_card)"
    by (simp add: loop_def m ex_tick_def TEST_DATA_SAMPLE_RATE_def)
  show ?thesis
    unfolding l using e f d by (simp add: tick_eqs new_events_def ex_tick_def)
qed

text \<open>
  C5, amended. Every tick first draws the display page from the state, the error log and
  the sample as they are before the tick. In \<open>READY_FOR_COUNTDOWN\<close>, \<open>COUNTDOWN\<close>,
  \<open>TEST_ACTIVE\<close> and \<open>POST_TEST\<close> it then reads both thermistors and stores their
  temperatures, and asks the load cell, storing the force only when the load cell has a
  new value. In \<open>STARTUP\<close> and \<open>ERROR\<close> it reads no sensor and the sample stays as it was.
\<close>

theorem tick_refreshes_display_then_sensors:
  "new_events s (tick t s) \<noteq> [] \<and>
   hd (new_events s (tick t s)) = DisplayPage (page s) \<and>
   (OPERATION_STATE s \<in> {READY_FOR_COUNTDOWN, COUNTDOWN, TEST_ACTIVE, POST_TEST} \<longrightarrow>
      ThermistorData (tick t s) =
        (ReadThermistor (adc1 t) THERMISTOR_1_RESISTANCE 40,
         ReadThermistor (adc2 t) THERMISTOR_2_RESISTANCE 40) \<and>
      LoadCellForceData (tick t s) =
        (if lc_update t then lc_data t / 100000 else LoadCellForceData s) \<and>
      filter is_sensor_read (new_events s (tick t s)) =
        [AnalogRead GPIO_THERMISTOR_1, AnalogRead GPIO_THERMISTOR_2, LoadCellUpdate] @
        (if lc_update t then [LoadCellGetData] else [])) \<and>
   (OPERATION_STATE s \<in> {STARTUP, ERROR} \<longrightarrow>
      ThermistorData (tick t s) = ThermistorData s \<and>
      LoadCellForceData (tick t s) = LoadCellForceData s \<and>
      new_events s (tick t s) = [DisplayPage (page s)])"
  by (cases "OPERATION_STATE s") (simp_all add: tick_eqs new_events_def)

theorem tick_refreshes_display_then_sensors_witness:
  "OPERATION_STATE (boot ex_boot) = READY_FOR_COUNTDOWN \<and>
   LoadCellForceData (tick (ex_tick 100) (boot ex_boot)) = 1 \<and>
   hd (new_events (boot ex_boot) (tick (ex_tick 100) (boot ex_boot))) =
     DisplayPage (page (boot ex_boot)) \<and>
   OPERATION_STATE (boot ex_boot_no_card) = ERROR \<and>
   new_events (boot ex_boot_no_card) (tick (ex_tick 100) (boot ex_boot_no_card)) =
     [DisplayPage (page (boot ex_boot_no_card))]"
proof -
  have r: "OPERATION_STATE (boot ex_boot) = READY_FOR_COUNTDOWN"
    and e: "OPERATION_STATE (boot ex_boot_no_card) = ERROR"
    by (simp_all add: run_defs)
  have t: "lc_update (ex_tick 100)" "lc_data (ex_tick 100) / 100000 = 1"
    by (simp_all add: ex_tick_def)
  from tick_refreshes_display_then_sensors[of "boot ex_boot" "ex_tick 100"]
    tick_refreshes_display_then_sensors[of "boot ex_boot_no_card" "ex_tick 100"] r e t
  show ?thesis by simp
qed

section \<open>The telemetry log\<close>

text \<open>
  C7, as stated, fails in its first field: armed at 5000 ms, the line logged at 5020 ms
  starts with 5.02, the seconds since power-up, while the seconds elapsed in the armed
  cycle are 0.02.
\<close>

theorem telemetry_time_is_uptime:
  "map_option (\<lambda>s. (OPERATION_STATE s, CountdownActivatedTime s))
     (run [Arm ex_arm] (boot ex_boot)) = Some (COUNTDOWN, 5000) \<and>
   map_option (\<lambda>s. (OPERATION_STATE s, hd (last (prints (hw_trace s))), Countdown s))
     (run [Arm ex_arm, Loop (ex_tick 5020)] (boot ex_boot)) =
     Some (COUNTDOWN, Float (251 / 50), 1 / 50)"
  by (simp add: run_defs prints_append telemetry_line_def)

lemma header_not_line: "\<not> is_telemetry_line header"
  by (simp add: is_telemetry_line_def header_def telemetry_line_def)

lemma lines_no_header: "list_all is_telemetry_line ls \<Longrightarrow> count_list ls header = 0"
  by (induction ls) (auto simp: header_not_line)

lemma log_shape_one_header: "log_shape tr \<Longrightarrow> count_list (prints tr) header = 1"
  by (cases "prints tr") (simp_all add: log_shape_def lines_no_header)

text \<open>
  C7, amended. A tick in \<open>COUNTDOWN\<close> or \<open>TEST_ACTIVE\<close> prints exactly one line: the clock
  reading in seconds since power-up, the force and the two temperatures just stored,
  separated by comma and blank and ended by a line end; the open file then holds all
  that was printed. A tick in any other state prints nothing. The header is printed at
  most once in a run, by the arm event right after it tried to open the file; in
  \<open>COUNTDOWN\<close>, \<open>TEST_ACTIVE\<close> and \<open>POST_TEST\<close> it has been printed exactly once, first, and
  everything printed after it is a telemetry line.
\<close>

theorem telemetry_lines_and_header:
  assumes "run is (boot b) = Some s"
  shows "(OPERATION_STATE s = COUNTDOWN \<or> OPERATION_STATE s = TEST_ACTIVE \<longrightarrow>
            prints (new_events s (tick t s)) =
              [telemetry_line (real (unat (ms_log t)) / 1000) (LoadCellForceData (tick t s))
                 (fst (ThermistorData (tick t s))) (snd (ThermistorData (tick t s)))] \<and>
            (\<exists>f. File s = Some f \<and> Sd (tick t s) f = Some (prints (hw_trace (tick t s))))) \<and>
         (OPERATION_STATE s \<noteq> COUNTDOWN \<and> OPERATION_STATE s \<noteq> TEST_ACTIVE \<longrightarrow>
            prints (new_events s (tick t s)) = []) \<and>
         count_list (prints (hw_trace s)) header \<le> 1 \<and>
         (OPERATION_STATE s \<in> {COUNTDOWN, TEST_ACTIVE, POST_TEST} \<longrightarrow>
            count_list (prints (hw_trace s)) header = 1 \<and> hd (prints (hw_trace s)) = header \<and>
            list_all is_telemetry_line (tl (prints (hw_trace s))))"
proof -
  from reachable_inv[OF assms] have inv: "reach_inv b s" .
  have new: "prints (new_events s (tick t s)) =
      (if OPERATION_STATE s = COUNTDOWN \<or> OPERATION_STATE s = TEST_ACTIVE
       then [telemetry_line (real (unat (ms_log t)) / 1000) (LoadCellForceData (tick t s))
                 (fst (ThermistorData (tick t s))) (snd (ThermistorData (tick t s)))]
       else [])"
    by (cases "OPERATION_STATE s") (simp_all add: tick_eqs new_events_def)
  have card: "\<exists>f. File s = Some f \<and> Sd (tick t s) f = Some (prints (hw_trace (tick t s)))"
    if "OPERATION_STATE s = COUNTDOWN \<or> OPERATION_STATE s = TEST_ACTIVE"
  proof -
    from inv that have "log_open s" by (auto simp: reach_inv_def)
    then obtain f where f: "File s = Some f" "Sd s f = Some (prints (hw_trace s))"
      by (auto simp: log_open_def split: option.splits)
    with that show ?thesis
      by (auto simp: tick_eqs card_write_def prints_append)
  qed
  have cnt: "count_list (prints (hw_trace s)) header \<le> 1"
    using inv by (cases "OPERATION_STATE s") (auto simp: reach_inv_def log_shape_one_header)
  have shp: "count_list (prints (hw_trace s)) header = 1 \<and> hd (prints (hw_trace s)) = header \<and>
            list_all is_telemetry_line (tl (prints (hw_trace s)))"
    if "OPERATION_STATE s \<in> {COUNTDOWN, TEST_ACTIVE, POST_TEST}"
  proof -
    from inv that have "log_shape (hw_trace s)" by (auto simp: reach_inv_def)
    then show ?thesis by (simp add: log_shape_one_header) (simp add: log_shape_def)
  qed
  from new card cnt shp show ?thesis by simp
qed

theorem telemetry_lines_and_header_witness:
  "\<exists>s. run [Arm ex_arm] (boot ex_boot) = Some s \<and> OPERATION_STATE s = COUNTDOWN \<and>
     prints (hw_trace s) = [header] \<and>
     hd (hd (prints (new_events s (tick (ex_tick 5020) s)))) = Float (251 / 50) \<and>
     Sd (tick (ex_tick 5020) s) (log_filename 7) = Some (prints (hw_trace (tick (ex_tick 5020) s)))"
proof -
  have "\<exists>s. run [Arm ex_arm] (boot ex_boot) = Some s \<and> OPERATION_STATE s = COUNTDOWN \<and>
     prints (hw_trace s) = [header] \<and> File s = Some (log_filename 7)"
    by (simp add: run_defs prints_append)
  then obtain s where r: "run [Arm ex_arm] (boot ex_boot) = Some s"
    and c: "OPERATION_STATE s = COUNTDOWN" and p: "prints (hw_trace s) = [header]"
    and f: "File s = Some (log_filename 7)"
    by blast
  have m: "real (unat (ms_log (ex_tick 5020))) / 1000 = 251 / 50"
    by (simp add: ex_tick_def)
  from telemetry_lines_and_header[OF r, of "ex_tick 5020"] c f
  have "prints (new_events s (tick (ex_tick 5020) s)) =
              [telemetry_line (real (unat (ms_log (ex_tick 5020))) / 1000)
                 (LoadCellForceData (tick (ex_tick 5020) s))
                 (fst (ThermistorData (tick (ex_tick 5020) s)))
                 (snd (ThermistorData (tick (ex_tick 5020) s)))]"
    and "Sd (tick (ex_tick 5020) s) (log_filename 7) =
           Some (prints (hw_trace (tick (ex_tick 5020) s)))"
    by auto
  with r c p m show ?thesis by (auto simp: telemetry_line_def)
qed

section \<open>Choosing the log file name\<close>

text \<open>
  C10. \<open>CreateLogFile\<close> draws names \<open>Motor Test Data #N.csv\<close> with \<open>N\<close> below 100 until one
  is not on the card. When it returns, the name it tried to open is one of the hundred,
  was not on the card before, and on success is the open file, created empty. When all
  hundred names are on the card it does not return. When the generator produces every
  value below 100 at some draw, it returns if and only if one of the hundred names is not
  on the card.
\<close>

theorem CreateLogFile_returns_iff_free_name:
  "(CreateLogFile a s = Some (ok, s') \<longrightarrow>
      (\<exists>n<100. log_filename n \<notin> dom (Sd s) \<and>
         last (hw_trace s') = FileOpen (log_filename n) \<and> ok = open_ok a \<and>
         (ok \<longrightarrow> File s' = Some (log_filename n) \<and> Sd s' (log_filename n) = Some []))) \<and>
   ((\<forall>n<100. log_filename n \<in> dom (Sd s)) \<longrightarrow> CreateLogFile a s = None) \<and>
   ((\<forall>n<100. \<exists>j. rnd a j mod 100 = n) \<longrightarrow>
      ((\<exists>r. CreateLogFile a s = Some r) \<longleftrightarrow> (\<exists>n<100. log_filename n \<notin> dom (Sd s))))"
proof -
  have ret: "\<exists>n<100. log_filename n \<notin> dom (Sd s) \<and>
         last (hw_trace s') = FileOpen (log_filename n) \<and> ok = open_ok a \<and>
         (ok \<longrightarrow> File s' = Some (log_filename n) \<and> Sd s' (log_filename n) = Some [])"
    if "CreateLogFile a s = Some (ok, s')" for ok s'
  proof -
    from CreateLogFile_result[OF that] obtain j evs where
      fresh: "log_filename (random 100 (rnd a j)) \<notin> dom (Sd s)" and
      ok: "ok = open_ok a" and
      s': "s' = s\<lparr>File := (if ok then Some (log_filename (random 100 (rnd a j))) else File s),
                  Sd := (if ok then (Sd s)(log_filename (random 100 (rnd a j)) \<mapsto> []) else Sd s),
                  hw_trace := hw_trace s @ evs @ [FileOpen (log_filename (random 100 (rnd a j)))]\<rparr>"
      by blast
    have "last (hw_trace s') = FileOpen (log_filename (random 100 (rnd a j))) \<and>
       (ok \<longrightarrow> File s' = Some (log_filename (random 100 (rnd a j))) \<and>
               Sd s' (log_filename (random 100 (rnd a j))) = Some [])"
      unfolding s' by simp
    with fresh ok random_100_less[of "rnd a j"] show ?thesis by blast
  qed
  have none: "CreateLogFile a s = None" if all: "\<forall>n<100. log_filename n \<in> dom (Sd s)"
  proof (cases "CreateLogFile a s")
    case None
    then show ?thesis .
  next
    case (Some r)
    then have "CreateLogFile a s = Some (fst r, snd r)" by simp
    from ret[OF this] all show ?thesis by blast
  qed
  have some: "\<exists>r. CreateLogFile a s = Some r"
    if fair: "\<forall>n<100. \<exists>j. rnd a j mod 100 = n" and free: "\<exists>n<100. log_filename n \<notin> dom (Sd s)"
  proof -
    from free obtain n where n: "n < 100" "log_filename n \<notin> dom (Sd s)" by blast
    with fair obtain j where "rnd a j mod 100 = n" by blast
    with n have "log_filename (random 100 (rnd a (0 + j))) \<notin> dom (Sd s)"
      by (simp add: random_def)
    from loop_returns[of "rnd a" 0 j s, OF this] obtain r where
      "CreateLogFile_loop (rnd a) (Suc 0) (log_filename (random 100 (rnd a 0))) s = Some r"
      by blast
    then show ?thesis by (cases r) (simp add: CreateLogFile_def)
  qed
  have iff: "(\<exists>r. CreateLogFile a s = Some r) \<longleftrightarrow> (\<exists>n<100. log_filename n \<notin> dom (Sd s))"
    if fair: "\<forall>n<100. \<exists>j. rnd a j mod 100 = n"
  proof
    assume "\<exists>r. CreateLogFile a s = Some r"
    then obtain r where "CreateLogFile a s = Some (fst r, snd r)" by auto
    from ret[OF this] show "\<exists>n<100. log_filename n \<notin> dom (Sd s)" by blast
  next
    assume "\<exists>n<100. log_filename n \<notin> dom (Sd s)"
    with some fair show "\<exists>r. CreateLogFile a s = Some r" by blast
  qed
  from ret[of ok s'] none iff show ?thesis by blast
qed

theorem CreateLogFile_returns_iff_free_name_witness:
  "CreateLogFile ex_arm (boot ex_boot_full) = None \<and>
   run [Arm ex_arm] (boot ex_boot_full) = None \<and>
   (\<exists>s'. CreateLogFile ex_arm (boot ex_boot) = Some (True, s') \<and>
      last (hw_trace s') = FileOpen (log_filename 7) \<and> File s' = Some (log_filename 7))"
proof -
  have full: "\<forall>n<100. log_filename n \<in> dom (Sd (boot ex_boot_full))"
    by (simp add: boot_def setup_fn_def reset_def InitGPIO_def InitRecorder_def InitLoadCell_def
        InitDisplay_def emit_def Let_def ex_boot_full_def dom_def)
  have fair: "\<forall>n<100. \<exists>j. rnd ex_arm j mod 100 = n"
  proof (intro allI impI)
    fix n :: nat assume "n < 100"
    then have "rnd ex_arm (n + 93) mod 100 = n" by (simp add: ex_arm_def)
    then show "\<exists>j. rnd ex_arm j mod 100 = n" ..
  qed
  have free: "\<exists>n<100. log_filename n \<notin> dom (Sd (boot ex_boot))"
    by (rule exI[of _ 0]) (simp add: run_defs)
  have rdy: "OPERATION_STATE (boot ex_boot_full) = READY_FOR_COUNTDOWN"
    by (simp add: boot_def setup_fn_def reset_def InitGPIO_def InitRecorder_def InitLoadCell_def
        InitDisplay_def emit_def Let_def ex_boot_full_def)
  have none: "CreateLogFile ex_arm s = None"
    if "\<forall>n<100. log_filename n \<in> dom (Sd s)" for s
    using CreateLogFile_returns_iff_free_name[of ex_arm s True s] that by blast
  have n1: "CreateLogFile ex_arm (boot ex_boot_full) = None"
    by (rule none[OF full])
  have "InterruptTestStartCommand ex_arm (boot ex_boot_full) = None"
    using rdy full by (simp add: InterruptTestStartCommand_def digitalWrite_def emit_def Let_def none)
  then have n2: "run [Arm ex_arm] (boot ex_boot_full) = None" by simp
  from CreateLogFile_returns_iff_free_name[of ex_arm "boot ex_boot" True "boot ex_boot"] fair free
  obtain r where r: "CreateLogFile ex_arm (boot ex_boot) = Some r" by blast
  have "\<exists>s'. CreateLogFile ex_arm (boot ex_boot) = Some (True, s') \<and>
      last (hw_trace s') = FileOpen (log_filename 7) \<and> File s' = Some (log_filename 7)"
    by (simp add: run_defs)
  with n1 n2 show ?thesis by blast
qed

end
